theory Spec2Isabelle
  imports Complex_Main "HOL-Library.Char_ord" "HOL-Library.List_Lexorder"
    "HOL-Library.Product_Lexorder" "HOL-Library.Sublist" "HOL-Library.Log_Nat"
begin

section \<open>Data model\<close>

text \<open>
  One row of the match table is one player's participation in one match for one team.
  The table is a pandas DataFrame: a set of named columns and a sequence of rows. A row
  carries a value for every field; the value of a field whose column is not listed in
  \<open>columns\<close> is never read, because every access to a missing column raises KeyError.
  Identifiers, roles and champions are strings, \<open>win\<close> and the first-objective flags are
  0/1 flags, the duration is an integer number of seconds.
\<close>

datatype error = KeyError string | TypeError

record observation =
  match_id :: string
  team_id :: string
  role :: string
  champion :: string
  win :: bool
  game_duration :: int
  first_dragon :: bool
  first_tower :: bool

record dataframe =
  columns :: "string list"
  rows :: "observation list"

text \<open>
  A Python float is kept as an exact rational, or \<open>None\<close> for NaN (the mean of an
  empty column). Every ordering comparison with NaN is false, as in Python. A mean is
  kept as the exact quotient of two counts and a literal as the exact decimal; the
  program holds the binary64 number nearest to it, \<open>b64\<close> of it. Comparing a mean with
  a literal or with another mean gives the same answer on the exact values as on their
  binary64 neighbours at every realistic table size, and is decided on the exact values.
  A sum is different: \<open>0.7 + 0.1\<close> is \<open>0.7999999999999999\<close> in binary64, below \<open>0.8\<close>.
  So \<open>+\<close> is binary64 addition of the nearest binary64 numbers, and a value compared
  with a sum is first replaced by its nearest binary64 number.
\<close>

type_synonym pyfloat = "rat option"

definition flt :: "pyfloat \<Rightarrow> pyfloat \<Rightarrow> bool" where
  "flt a b = (case (a, b) of (Some x, Some y) \<Rightarrow> x < y | _ \<Rightarrow> False)"

definition fle :: "pyfloat \<Rightarrow> pyfloat \<Rightarrow> bool" where
  "fle a b = (case (a, b) of (Some x, Some y) \<Rightarrow> x \<le> y | _ \<Rightarrow> False)"

definition fgt :: "pyfloat \<Rightarrow> pyfloat \<Rightarrow> bool" where
  "fgt a b = flt b a"

definition fge :: "pyfloat \<Rightarrow> pyfloat \<Rightarrow> bool" where
  "fge a b = fle b a"

text \<open>
  Rounding to binary64 (IEEE 754 double, round to nearest, ties to even): \<open>rne\<close> rounds
  to the nearest integer, ties to the even one; \<open>exponent x\<close> is the \<open>e\<close> with
  \<open>2^e \<le> |x| < 2^(e+1)\<close>, found from the bit lengths of numerator and denominator; a
  binary64 number with that exponent is a multiple of \<open>2^(e-52)\<close> (53 significant
  bits). Overflow and subnormal numbers are left out: the values here are rates in
  \<open>[0, 1]\<close> and sums of a rate and a literal.
\<close>

definition rne :: "rat \<Rightarrow> int" where
  "rne q = (let f = \<lfloor>q\<rfloor>; d = q - of_int f
            in if d < 1 / 2 then f else if 1 / 2 < d then f + 1
               else if even f then f else f + 1)"

definition exponent :: "rat \<Rightarrow> int" where
  "exponent x = (let (p, q) = quotient_of \<bar>x\<bar>; d = bitlen p - bitlen q
                 in if power_int 2 d \<le> \<bar>x\<bar> then d else d - 1)"

definition b64 :: "rat \<Rightarrow> rat" where
  "b64 x = (if x = 0 then 0
            else let u = power_int 2 (exponent x - 52) in of_int (rne (x / u)) * u)"

text \<open>The binary64 number the program holds for a value kept exactly.\<close>

definition fround :: "pyfloat \<Rightarrow> pyfloat" where
  "fround a = (case a of Some x \<Rightarrow> Some (b64 x) | None \<Rightarrow> None)"

text \<open>Python's \<open>+\<close> on two floats: the binary64 sum of the two binary64 numbers.\<close>

definition fadd :: "pyfloat \<Rightarrow> pyfloat \<Rightarrow> pyfloat" where
  "fadd a b = (case (a, b) of (Some x, Some y) \<Rightarrow> Some (b64 (b64 x + b64 y)) | _ \<Rightarrow> None)"

text \<open>\<open>Series.mean()\<close> of a 0/1 column: the number of ones over the number of rows, NaN
  when there is no row.\<close>

definition mean :: "bool list \<Rightarrow> pyfloat" where
  "mean xs = (if xs = [] then None
              else Some (of_nat (length (filter id xs)) / of_nat (length xs)))"

text \<open>\<open>df[name]\<close>: the column, or KeyError when the table has no such column.\<close>

definition col :: "dataframe \<Rightarrow> string \<Rightarrow> (observation \<Rightarrow> 'a) \<Rightarrow> error + 'a list" where
  "col df name field =
     (if name \<in> set (columns df) then Inr (map field (rows df)) else Inl (KeyError name))"

text \<open>\<open>df[mask][name]\<close> for a row selection \<open>df[mask]\<close> already computed.\<close>

definition col_of :: "dataframe \<Rightarrow> observation list \<Rightarrow> string \<Rightarrow> (observation \<Rightarrow> 'a)
    \<Rightarrow> error + 'a list" where
  "col_of df rs name field =
     (if name \<in> set (columns df) then Inr (map field rs) else Inl (KeyError name))"

text \<open>Sequencing of steps that may raise: the first error ends the computation.\<close>

definition and_then :: "error + 'a \<Rightarrow> ('a \<Rightarrow> error + 'b) \<Rightarrow> error + 'b" where
  "and_then m f = (case m of Inl e \<Rightarrow> Inl e | Inr x \<Rightarrow> f x)"

definition required_fields :: "string list" where
  "required_fields = [''first_dragon'', ''first_tower'', ''game_duration'', ''win'']"

section \<open>Grouping and counting (pandas)\<close>

text \<open>
  \<open>groupby\<close> visits the distinct keys in ascending order; each group keeps the rows of its
  key in table order.
\<close>

definition groupby_keys :: "'k::linorder list \<Rightarrow> 'k list" where
  "groupby_keys ks = sort (remdups ks)"

text \<open>The distinct values of a column in order of first appearance.\<close>

definition first_seen :: "'a list \<Rightarrow> 'a list" where
  "first_seen xs = rev (remdups (rev xs))"

text \<open>
  \<open>Series.value_counts()\<close>: every distinct value with its number of occurrences, by
  descending count. The order among equal counts is the library's, not this program's: it
  is modelled as the specification describes it, values with equal counts staying in order
  of first appearance (a stable sort on the descending count).
\<close>

definition value_counts :: "'a list \<Rightarrow> ('a \<times> nat) list" where
  "value_counts xs =
     sort_key (\<lambda>p. - int (snd p)) (map (\<lambda>x. (x, count_list xs x)) (first_seen xs))"

text \<open>\<open>idxmax()\<close> and \<open>max()\<close> of a non-empty series of counts: the scan keeps the first
  entry that holds the greatest count.\<close>

fun first_max :: "('a \<times> nat) \<Rightarrow> ('a \<times> nat) list \<Rightarrow> ('a \<times> nat)" where
  "first_max best [] = best"
| "first_max best (q # qs) = first_max (if snd q > snd best then q else best) qs"

definition idxmax :: "('a \<times> nat) list \<Rightarrow> 'a" where
  "idxmax s = (case s of p # ps \<Rightarrow> fst (first_max p ps))"

definition series_max :: "('a \<times> nat) list \<Rightarrow> nat" where
  "series_max s = (case s of p # ps \<Rightarrow> snd (first_max p ps))"

section \<open>Player tendencies (analysis/player\_tendencies.py)\<close>

record role_tendency =
  most_played_champion :: string
  win_rate :: pyfloat
  count :: nat
  priority :: string
  action :: string

text \<open>The body of the loop over the role groups of the (filtered) rows \<open>rs\<close>; the result
  dictionary is the list of its entries in insertion order.\<close>

fun role_loop :: "dataframe \<Rightarrow> observation list \<Rightarrow> string list
    \<Rightarrow> error + (string \<times> role_tendency) list" where
  "role_loop df rs [] = Inr []"
| "role_loop df rs (rl # rls) =
     (let role_df = filter (\<lambda>r. role r = rl) rs in
      if role_df = [] then role_loop df rs rls
      else
        let champion_counts = value_counts (map champion role_df) in
        if champion_counts = [] then role_loop df rs rls
        else
          let filtered_counts = filter (\<lambda>p. snd p \<ge> 2) champion_counts in
          if filtered_counts = [] then role_loop df rs rls
          else
            let most_played_champion = idxmax filtered_counts;
                games_played = series_max filtered_counts;
                champion_df = filter (\<lambda>r. champion r = most_played_champion) role_df
            in and_then (col_of df champion_df ''win'' win) (\<lambda>ws.
                 let win_rate = mean ws;
                     priority =
                       (if games_played \<ge> 3 \<and>
                           (fge win_rate (Some (7 / 10)) \<or> fle win_rate (Some (3 / 10)))
                        then ''HIGH''
                        else if games_played \<ge> 2 \<and>
                           (fge win_rate (Some (6 / 10)) \<or> fle win_rate (Some (4 / 10)))
                        then ''MEDIUM''
                        else ''LOW'');
                     action =
                       (if fge win_rate (Some (6 / 10)) then ''DENY COMFORT PICK''
                        else if fle win_rate (Some (4 / 10)) then ''FORCE LOSING MATCHUP''
                        else ''IGNORE AND PLAY CROSS-MAP'')
                 in and_then (role_loop df rs rls) (\<lambda>results.
                      Inr ((rl, \<lparr> most_played_champion = most_played_champion,
                                  win_rate = win_rate,
                                  count = games_played,
                                  priority = priority,
                                  action = action \<rparr>) # results))))"

text \<open>\<open>roles\<close> is \<open>None\<close> or a list; \<open>if roles:\<close> holds for a non-empty list only.\<close>

definition analyze_player_tendencies :: "dataframe \<Rightarrow> string list option
    \<Rightarrow> error + (string \<times> role_tendency) list" where
  "analyze_player_tendencies df roles =
     (if ''role'' \<notin> set (columns df) \<or> ''champion'' \<notin> set (columns df) then Inr []
      else
        let rs = (case roles of
                    Some (x # xs) \<Rightarrow> filter (\<lambda>r. role r \<in> set (x # xs)) (rows df)
                  | _ \<Rightarrow> rows df)
        in role_loop df rs (groupby_keys (map role rs)))"

section \<open>Compositions (analysis/compositions.py)\<close>

definition champion_tags :: "(string \<times> string) list" where
  "champion_tags =
     [(''Lee Sin'', ''skirmish''), (''Renekton'', ''skirmish''), (''LeBlanc'', ''skirmish''),
      (''Xin Zhao'', ''skirmish''), (''Elise'', ''skirmish''), (''Lucian'', ''skirmish''),
      (''Nidalee'', ''skirmish''), (''Kindred'', ''skirmish''), (''Sylas'', ''skirmish''),
      (''Jayce'', ''skirmish''), (''Wukong'', ''skirmish''), (''Taliyah'', ''skirmish''),
      (''Lulu'', ''protect''), (''Janna'', ''protect''), (''Braum'', ''protect''),
      (''Kog'' @ [CHR 0x27] @ ''Maw'', ''protect''), (''Vayne'', ''protect''),
      (''Tahm Kench'', ''protect''), (''Milio'', ''protect''), (''Yuumi'', ''protect''),
      (''Zilean'', ''protect''), (''Rakan'', ''protect''), (''Karma'', ''protect''),
      (''Malphite'', ''engage''), (''Amumu'', ''engage''), (''Leona'', ''engage''),
      (''Nautilus'', ''engage''), (''Jarvan IV'', ''engage''), (''Ornn'', ''engage''),
      (''Galio'', ''engage''), (''Vi'', ''engage''), (''Sejuani'', ''engage''),
      (''Sion'', ''engage''), (''K'' @ [CHR 0x27] @ ''Sante'', ''engage''),
      (''Alistar'', ''engage''), (''Maokai'', ''engage''),
      (''Kayle'', ''scaling''), (''Kassadin'', ''scaling''), (''Jinx'', ''scaling''),
      (''Ryze'', ''scaling''), (''Sivir'', ''scaling''), (''Viktor'', ''scaling''),
      (''Smolder'', ''scaling''), (''Azir'', ''scaling''), (''Caitlyn'', ''scaling''),
      (''Senna'', ''scaling''), (''Vladimir'', ''scaling'')]"

record archetype =
  category :: string
  win_condition :: string
  break_point :: string

definition archetypes :: "(string \<times> archetype) list" where
  "archetypes =
     [(''skirmish'',
         \<lparr> category = ''EARLY SKIRMISH'',
           win_condition = ''CRUSH LANES EARLY. INVADE AND SNOWBALL TEMPO.'',
           break_point = ''FALLS OFF IF GAME STALLS PAST 25 MINS.'' \<rparr>),
      (''protect'',
         \<lparr> category = ''PROTECT THE CARRY'',
           win_condition = ''PEEL FOR ADC. WIN FRONT-TO-BACK TEAMFIGHTS.'',
           break_point = ''VULNERABLE IF CARRY IS DIVED OR PICKED EARLY.'' \<rparr>),
      (''engage'',
         \<lparr> category = ''HEAVY ENGAGE'',
           win_condition = ''FORCE 5V5. CHAIN CC ON PRIORITY TARGETS.'',
           break_point = ''USELESS IF THEY MISS INITIAL ENGAGE OR GET POKED.'' \<rparr>),
      (''scaling'',
         \<lparr> category = ''SCALING'',
           win_condition = ''STALL FOR ITEMS. OUT-STAT IN LATE GAME CLUTCHES.'',
           break_point = ''EXTREMELY WEAK TO EARLY DIVES AND SOUL PRESSURE.'' \<rparr>),
      (''standard'',
         \<lparr> category = ''STANDARD'',
           win_condition = ''ADAPT TO FLOW. PLAY FOR STANDARD OBJECTIVES.'',
           break_point = ''LACKS SPECIALIZED STRENGTH AGAINST FOCUSED COMPS.'' \<rparr>)]"

text \<open>\<open>counts[tag] += 1\<close> on the dictionary of counts, kept in insertion order.\<close>

definition increment :: "(string \<times> nat) list \<Rightarrow> string \<Rightarrow> (string \<times> nat) list" where
  "increment counts tag = map (\<lambda>(k, v). if k = tag then (k, v + 1) else (k, v)) counts"

text \<open>The loop over the champions of a composition: an untagged champion changes nothing.\<close>

fun count_tags :: "(string \<times> nat) list \<Rightarrow> string list \<Rightarrow> (string \<times> nat) list" where
  "count_tags counts [] = counts"
| "count_tags counts (champ # cmp) =
     (case map_of champion_tags champ of
        Some tag \<Rightarrow> count_tags (increment counts tag) cmp
      | None \<Rightarrow> count_tags counts cmp)"

text \<open>\<open>max(counts, key=counts.get)\<close> is the first key, in insertion order, that holds the
  greatest count: \<open>idxmax\<close>. \<open>archetypes.get\<close> gives \<open>None\<close> for an unknown style, and
  unpacking \<open>None\<close> into the result raises TypeError.\<close>

definition classify_team_composition :: "string list \<Rightarrow> archetype option" where
  "classify_team_composition cmp =
     (let counts = count_tags [(''skirmish'', 0), (''protect'', 0), (''engage'', 0),
                               (''scaling'', 0)] cmp;
          primary_style = idxmax counts;
          primary_style = (if series_max counts < 2 then ''standard'' else primary_style)
      in map_of archetypes primary_style)"

record composition_entry =
  composition :: "string list"
  count :: nat
  category :: string
  win_condition :: string
  break_point :: string

text \<open>One composition per (match, team) group, in group order: the sorted champions.\<close>

definition team_compositions :: "observation list \<Rightarrow> string list list" where
  "team_compositions rs =
     map (\<lambda>k. sort (map champion (filter (\<lambda>r. (match_id r, team_id r) = k) rs)))
       (groupby_keys (map (\<lambda>r. (match_id r, team_id r)) rs))"

fun report_rows :: "(string list \<times> nat) list \<Rightarrow> error + composition_entry list" where
  "report_rows [] = Inr []"
| "report_rows ((cmp, n) # rest) =
     (case classify_team_composition cmp of
        None \<Rightarrow> Inl TypeError
      | Some classification \<Rightarrow>
          and_then (report_rows rest) (\<lambda>results.
            Inr (\<lparr> composition = cmp, count = n,
                   category = archetype.category classification,
                   win_condition = archetype.win_condition classification,
                   break_point = archetype.break_point classification \<rparr> # results)))"

definition analyze_compositions :: "dataframe \<Rightarrow> error + composition_entry list" where
  "analyze_compositions df =
     (if ''champion'' \<notin> set (columns df) then Inr []
      else if ''match_id'' \<notin> set (columns df) then Inl (KeyError ''match_id'')
      else if ''team_id'' \<notin> set (columns df) then Inl (KeyError ''team_id'')
      else
        let compositions = team_compositions (rows df);
            comp_counts = value_counts compositions
        in report_rows (take 5 comp_counts))"

section \<open>Team tendencies (analysis/team\_tendencies.py)\<close>

record team_tendency =
  first_dragon_rate :: pyfloat
  first_tower_rate :: pyfloat
  early_game_win_rate :: pyfloat
  late_game_win_rate :: pyfloat
  win_tendency :: string

text \<open>
  \<open>df[mask]['win'].mean() if not df[mask].empty else 0.0\<close>: the column \<open>win\<close> is read
  only when the selection has a row.
\<close>

definition partition_win_rate :: "dataframe \<Rightarrow> observation list \<Rightarrow> error + pyfloat" where
  "partition_win_rate df part =
     (if part \<noteq> [] then
        and_then (col_of df part ''win'' win) (\<lambda>ws. Inr (mean ws))
      else Inr (Some 0))"

definition early_game :: "dataframe \<Rightarrow> observation list" where
  "early_game df = filter (\<lambda>r. game_duration r < 1800) (rows df)"

definition late_game :: "dataframe \<Rightarrow> observation list" where
  "late_game df = filter (\<lambda>r. game_duration r \<ge> 1800) (rows df)"

definition analyze_team_tendencies :: "dataframe \<Rightarrow> error + team_tendency" where
  "analyze_team_tendencies df =
     and_then (col df ''first_dragon'' first_dragon) (\<lambda>fd.
     and_then (col df ''first_tower'' first_tower) (\<lambda>ft.
     and_then (col df ''game_duration'' game_duration) (\<lambda>gd.
     and_then (partition_win_rate df (early_game df)) (\<lambda>early_win_rate.
     and_then (partition_win_rate df (late_game df)) (\<lambda>late_win_rate.
        Inr \<lparr> first_dragon_rate = mean fd,
              first_tower_rate = mean ft,
              early_game_win_rate = early_win_rate,
              late_game_win_rate = late_win_rate,
              win_tendency = (if fgt early_win_rate late_win_rate then ''early'' else ''late'') \<rparr>)))))"

section \<open>Insight synthesis (insights/how\_to\_win.py)\<close>

text \<open>
  The metric of an insight is an f-string: fixed text around rates formatted as percentages.
  It is kept as its parts, the rate unformatted.
\<close>

datatype part = Txt string | Pct pyfloat

record insight =
  recommendation :: string
  metric :: "part list"
  priority :: string

text \<open>The rates computed at the head of \<open>generate_how_to_win_insights\<close>: the dragon rate,
  the early and the late win rate.\<close>

definition how_to_win_rates :: "dataframe \<Rightarrow> error + (pyfloat \<times> pyfloat \<times> pyfloat)" where
  "how_to_win_rates df =
     and_then (col df ''first_dragon'' first_dragon) (\<lambda>fd.
     and_then (col df ''game_duration'' game_duration) (\<lambda>gd.
     and_then (partition_win_rate df (early_game df)) (\<lambda>early_win_rate.
     and_then (partition_win_rate df (late_game df)) (\<lambda>late_win_rate.
        Inr (mean fd, early_win_rate, late_win_rate)))))"

definition high_insight :: "dataframe \<Rightarrow> pyfloat \<Rightarrow> pyfloat \<Rightarrow> pyfloat \<Rightarrow> error + insight" where
  "high_insight df dragon_rate early_win_rate late_win_rate =
     (if flt dragon_rate (Some (4 / 10)) then
        Inr \<lparr> recommendation = ''FORCE DRAGON FIGHTS. DENY SOUL AT ALL COSTS.'',
              metric = [Txt ''Opponent dragon control is weak ('', Pct dragon_rate,
                        Txt '' capture rate).''],
              priority = ''HIGH'' \<rparr>
      else if fgt (fround early_win_rate) (fadd late_win_rate (Some (15 / 100))) then
        Inr \<lparr> recommendation = ''STALL FOR LATE. PUNISH THEIR MID-GAME DESPERATION.'',
              metric = [Txt ''Massive late-game drop detected ('', Pct early_win_rate,
                        Txt '' Early vs '', Pct late_win_rate, Txt '' Late WR).''],
              priority = ''HIGH'' \<rparr>
      else
        and_then (col df ''win'' win) (\<lambda>ws.
           Inr \<lparr> recommendation = ''PRESS THE ADVANTAGE. DON'' @ [CHR 0x27] @ ''T LET THEM BREATHE.'',
                 metric = [Txt ''Maintain pressure ('', Pct (mean ws),
                           Txt '' overall win rate).''],
                 priority = ''HIGH'' \<rparr>))"

definition medium_insight :: "dataframe \<Rightarrow> pyfloat \<Rightarrow> pyfloat \<Rightarrow> error + insight" where
  "medium_insight df early_win_rate late_win_rate =
     and_then (col df ''first_tower'' first_tower) (\<lambda>ft.
        (let tower_rate = mean ft in
         if flt tower_rate (Some (5 / 10)) then
           Inr \<lparr> recommendation = ''CRASH WAVES. PUNISH WEAK ROTATIONS FOR PLATES.'',
                 metric = [Txt ''Subpar first tower control ('', Pct tower_rate, Txt '' rate).''],
                 priority = ''MEDIUM'' \<rparr>
         else if fgt (fround late_win_rate) (fadd early_win_rate (Some (1 / 10))) then
           Inr \<lparr> recommendation = ''INVADE EARLY. BREAK THEIR SCALING BEFORE IT STARTS.'',
                 metric = [Txt ''Scaling threat detected ('', Pct late_win_rate,
                           Txt '' Late WR vs '', Pct early_win_rate, Txt '' Early).''],
                 priority = ''MEDIUM'' \<rparr>
         else
           Inr \<lparr> recommendation = ''CONTROL VISION. PUNISH FACE-CHECKS IN RIVER.'',
                 metric = [Txt ''Standard objective pacing detected.''],
                 priority = ''MEDIUM'' \<rparr>))"

definition situational_insight :: insight where
  "situational_insight =
     \<lparr> recommendation = ''BAIT BARON. FORCE THEM INTO A BAD FACE-CHECK.'',
       metric = [Txt ''Situational tactical opening.''],
       priority = ''SITUATIONAL'' \<rparr>"

definition generate_how_to_win_insights :: "dataframe \<Rightarrow> error + insight list" where
  "generate_how_to_win_insights df =
     and_then (how_to_win_rates df) (\<lambda>(dragon_rate, early_win_rate, late_win_rate).
     and_then (high_insight df dragon_rate early_win_rate late_win_rate) (\<lambda>h.
     and_then (medium_insight df early_win_rate late_win_rate) (\<lambda>m.
        Inr ([] @ [h] @ [m] @ [situational_insight]))))"

section \<open>Sample tables\<close>

definition sample_row :: "bool \<Rightarrow> bool \<Rightarrow> int \<Rightarrow> bool \<Rightarrow> observation" where
  "sample_row fd ft dur w =
     \<lparr> match_id = ''M1'', team_id = ''BLUE'', role = ''TOP'', champion = ''Garen'',
       win = w, game_duration = dur, first_dragon = fd, first_tower = ft \<rparr>"

definition all_columns :: "string list" where
  "all_columns = [''match_id'', ''team_id'', ''role'', ''champion'', ''win'', ''game_duration'',
                  ''first_dragon'', ''first_tower'']"

definition df_two :: dataframe where
  "df_two = \<lparr> columns = all_columns,
             rows = [sample_row True True 1700 True, sample_row False True 1900 False] \<rparr>"

text \<open>The mean of win over a partition as the specification states it: wins over rows, and
  0 for a partition without rows.\<close>

definition rate_or_zero :: "observation list \<Rightarrow> rat" where
  "rate_or_zero part =
     (if part = [] then 0 else of_nat (length (filter win part)) / of_nat (length part))"

definition df_ten :: dataframe where
  "df_ten = \<lparr> columns = all_columns,
             rows = [sample_row True True 1700 True, sample_row True True 1700 True,
                     sample_row True True 1700 True, sample_row False True 1700 True,
                     sample_row False True 1700 True, sample_row False True 1700 False,
                     sample_row False False 1700 False, sample_row False False 1700 False,
                     sample_row False False 1700 False, sample_row False False 1700 False] \<rparr>"

text \<open>The rows left by the optional roles filter, and the champions played in one role.\<close>

definition filtered_rows :: "dataframe \<Rightarrow> string list option \<Rightarrow> observation list" where
  "filtered_rows df roles =
     (case roles of
        Some (x # xs) \<Rightarrow> filter (\<lambda>r. role r \<in> set (x # xs)) (rows df)
      | _ \<Rightarrow> rows df)"

definition role_champions :: "dataframe \<Rightarrow> string \<Rightarrow> string list" where
  "role_champions df rl = map champion (filter (\<lambda>r. role r = rl) (rows df))"

definition player_row :: "string \<Rightarrow> string \<Rightarrow> string \<Rightarrow> bool \<Rightarrow> observation" where
  "player_row m rl c w =
     \<lparr> match_id = m, team_id = ''BLUE'', role = rl, champion = c,
       win = w, game_duration = 1700, first_dragon = True, first_tower = False \<rparr>"

definition df_top :: dataframe where
  "df_top = \<lparr> columns = all_columns,
             rows = [player_row ''M1'' ''TOP'' ''A'' True, player_row ''M2'' ''TOP'' ''B'' False,
                     player_row ''M3'' ''TOP'' ''A'' True, player_row ''M4'' ''TOP'' ''A'' True,
                     player_row ''M1'' ''MID'' ''C'' True] \<rparr>"

definition top_tendency :: role_tendency where
  "top_tendency = \<lparr> most_played_champion = ''A'', win_rate = Some 1, count = 3,
                     priority = ''HIGH'', action = ''DENY COMFORT PICK'' \<rparr>"

definition df_no_role :: dataframe where
  "df_no_role = \<lparr> columns = [''match_id'', ''team_id'', ''champion'', ''win'', ''game_duration'',
                             ''first_dragon'', ''first_tower''],
                 rows = [sample_row True True 1700 True] \<rparr>"

definition df_no_champion :: dataframe where
  "df_no_champion = \<lparr> columns = [''match_id'', ''team_id'', ''role'', ''win'', ''game_duration'',
                                 ''first_dragon'', ''first_tower''],
                     rows = [sample_row True True 1700 True] \<rparr>"

definition garen_entry :: composition_entry where
  "garen_entry = \<lparr> composition = [''Garen''], count = 1, category = ''STANDARD'',
       win_condition = ''ADAPT TO FLOW. PLAY FOR STANDARD OBJECTIVES.'',
       break_point = ''LACKS SPECIALIZED STRENGTH AGAINST FOCUSED COMPS.'' \<rparr>"

text \<open>
  The classification as the specification words it: the number of champions of a
  composition that carry a given tag, the fixed priority order of the archetypes, the
  highest of the four counts, and the primary style chosen from the four counts.
\<close>

definition tag_count :: "string list \<Rightarrow> string \<Rightarrow> nat" where
  "tag_count cmp a = length (filter (\<lambda>c. map_of champion_tags c = Some a) cmp)"

definition style_of :: "nat \<Rightarrow> nat \<Rightarrow> nat \<Rightarrow> nat \<Rightarrow> string" where
  "style_of s p e c =
     (if s < 2 \<and> p < 2 \<and> e < 2 \<and> c < 2 then ''standard''
      else if p \<le> s \<and> e \<le> s \<and> c \<le> s then ''skirmish''
      else if e \<le> p \<and> c \<le> p then ''protect''
      else if c \<le> e then ''engage''
      else ''scaling'')"

definition archetype_order :: "string list" where
  "archetype_order = [''skirmish'', ''protect'', ''engage'', ''scaling'']"

definition highest_count :: "string list \<Rightarrow> nat" where
  "highest_count cmp =
     max (max (tag_count cmp ''skirmish'') (tag_count cmp ''protect''))
         (max (tag_count cmp ''engage'') (tag_count cmp ''scaling''))"

definition skirmish_comp :: "string list" where
  "skirmish_comp = [''Elise'', ''Janna'', ''Jinx'', ''Lee Sin'', ''Lulu'']"

definition comp_row :: "string \<Rightarrow> string \<Rightarrow> string \<Rightarrow> observation" where
  "comp_row m t c =
     \<lparr> match_id = m, team_id = t, role = ''TOP'', champion = c,
       win = True, game_duration = 1700, first_dragon = True, first_tower = False \<rparr>"

definition df_comps :: dataframe where
  "df_comps = \<lparr> columns = all_columns,
               rows = [comp_row ''M2'' ''RED'' ''Zed'', comp_row ''M1'' ''BLUE'' ''Garen'',
                       comp_row ''M1'' ''RED'' ''Ahri'', comp_row ''M1'' ''BLUE'' ''Darius'',
                       comp_row ''M2'' ''BLUE'' ''Ahri''] \<rparr>"

definition standard_entry :: "string list \<Rightarrow> nat \<Rightarrow> composition_entry" where
  "standard_entry cmp n = \<lparr> composition = cmp, count = n, category = ''STANDARD'',
       win_condition = ''ADAPT TO FLOW. PLAY FOR STANDARD OBJECTIVES.'',
       break_point = ''LACKS SPECIALIZED STRENGTH AGAINST FOCUSED COMPS.'' \<rparr>"

definition comps_report :: "composition_entry list" where
  "comps_report = [standard_entry [''Ahri''] 2, standard_entry [''Darius'', ''Garen''] 1,
                   standard_entry [''Zed''] 1]"

text \<open>
  The comparison \<open>x > y + c\<close> as Python decides it for a rate \<open>x\<close>, a rate \<open>y\<close> and a
  literal \<open>c\<close>: on the binary64 numbers nearest to them, with the binary64 sum.
\<close>

definition exceeds_sum :: "rat \<Rightarrow> rat \<Rightarrow> rat \<Rightarrow> bool" where
  "exceeds_sum x y c \<longleftrightarrow> b64 (b64 y + b64 c) < b64 x"

text \<open>A table of 15 rows: 10 early games with 7 wins, 5 late games with 4 wins; the late
  win rate is above the early one by exactly 0.10.\<close>

definition df_tie :: dataframe where
  "df_tie = \<lparr> columns = all_columns,
              rows = replicate 7 (sample_row True True 1700 True) @
                     replicate 3 (sample_row True True 1700 False) @
                     replicate 4 (sample_row True True 1900 True) @
                     replicate 1 (sample_row True True 1900 False) \<rparr>"

definition tie_high :: insight where
  "tie_high =
     \<lparr> recommendation = ''PRESS THE ADVANTAGE. DON'' @ [CHR 0x27] @ ''T LET THEM BREATHE.'',
       metric = [Txt ''Maintain pressure ('', Pct (Some (11 / 15)), Txt '' overall win rate).''],
       priority = ''HIGH'' \<rparr>"

definition tie_medium :: insight where
  "tie_medium =
     \<lparr> recommendation = ''INVADE EARLY. BREAK THEIR SCALING BEFORE IT STARTS.'',
       metric = [Txt ''Scaling threat detected ('', Pct (Some (4 / 5)),
                 Txt '' Late WR vs '', Pct (Some (7 / 10)), Txt '' Early).''],
       priority = ''MEDIUM'' \<rparr>"

section \<open>Reading columns that are present\<close>

lemma and_then_Inr [simp]: "and_then (Inr x) f = f x"
  by (simp add: and_then_def)

lemma and_then_Inl [simp]: "and_then (Inl e) f = Inl e"
  by (simp add: and_then_def)

lemma col_present: "name \<in> set (columns df) \<Longrightarrow> col df name field = Inr (map field (rows df))"
  by (simp add: col_def)

lemma col_of_present:
  "name \<in> set (columns df) \<Longrightarrow> col_of df rs name field = Inr (map field rs)"
  by (simp add: col_of_def)

lemma partition_win_rate_present:
  "''win'' \<in> set (columns df) \<Longrightarrow>
   partition_win_rate df part = Inr (if part = [] then Some 0 else mean (map win part))"
  by (simp add: partition_win_rate_def col_of_present)

lemma required_fieldsD:
  assumes "set required_fields \<subseteq> set (columns df)"
  shows "''first_dragon'' \<in> set (columns df)" "''first_tower'' \<in> set (columns df)"
    "''game_duration'' \<in> set (columns df)" "''win'' \<in> set (columns df)"
  using assms by (auto simp: required_fields_def)

lemma how_to_win_rates_present:
  assumes "set required_fields \<subseteq> set (columns df)"
  shows "how_to_win_rates df =
     Inr (mean (map first_dragon (rows df)),
          (if early_game df = [] then Some 0 else mean (map win (early_game df))),
          (if late_game df = [] then Some 0 else mean (map win (late_game df))))"
  using required_fieldsD [OF assms]
  by (simp add: how_to_win_rates_def col_present partition_win_rate_present)

section \<open>The synthesizer emits three insights\<close>

lemma high_insight_present:
  assumes "''win'' \<in> set (columns df)"
  shows "\<exists>h. high_insight df d e l = Inr h \<and> priority h = ''HIGH''"
  using assms by (simp add: high_insight_def col_present)

lemma medium_insight_present:
  assumes "''first_tower'' \<in> set (columns df)"
  shows "\<exists>m. medium_insight df e l = Inr m \<and> priority m = ''MEDIUM''"
  using assms by (simp add: medium_insight_def col_present Let_def)

text \<open>
  C1. On every table that has the columns first\_dragon, first\_tower, game\_duration and win,
  \<open>generate_how_to_win_insights\<close> returns (it does not raise) a list of exactly three
  insights, and their priority labels are HIGH, MEDIUM, SITUATIONAL in this order.
\<close>

theorem how_to_win_three_insights:
  assumes "set required_fields \<subseteq> set (columns df)"
  shows "\<exists>ins. generate_how_to_win_insights df = Inr ins \<and> length ins = 3 \<and>
           map priority ins = [''HIGH'', ''MEDIUM'', ''SITUATIONAL'']"
proof -
  note req = required_fieldsD [OF assms]
  let ?d = "mean (map first_dragon (rows df))"
  let ?e = "if early_game df = [] then Some 0 else mean (map win (early_game df))"
  let ?l = "if late_game df = [] then Some 0 else mean (map win (late_game df))"
  obtain h where h: "high_insight df ?d ?e ?l = Inr h" "priority h = ''HIGH''"
    using high_insight_present [OF req(4)] by blast
  obtain m where m: "medium_insight df ?e ?l = Inr m" "priority m = ''MEDIUM''"
    using medium_insight_present [OF req(2)] by blast
  have "generate_how_to_win_insights df = Inr [h, m, situational_insight]"
    using h(1) m(1)
    by (simp add: generate_how_to_win_insights_def how_to_win_rates_present [OF assms])
  then show ?thesis
    by (simp add: h m situational_insight_def)
qed

theorem how_to_win_three_insights_witness:
  "set required_fields \<subseteq> set (columns df_two) \<and>
   (\<exists>ins. generate_how_to_win_insights df_two = Inr ins \<and> length ins = 3 \<and>
           map priority ins = [''HIGH'', ''MEDIUM'', ''SITUATIONAL''])"
proof -
  have h: "set required_fields \<subseteq> set (columns df_two)"
    by (simp add: required_fields_def df_two_def all_columns_def)
  show ?thesis using h how_to_win_three_insights [OF h] by simp
qed

section \<open>Team tendencies: partitions and win rates\<close>

lemma mean_map: "mean (map f rs) = (if rs = [] then None
    else Some (of_nat (length (filter f rs)) / of_nat (length rs)))"
  by (simp add: mean_def filter_map comp_def)

lemma partition_rate_value:
  "(if part = [] then Some 0 else mean (map win part)) = Some (rate_or_zero part)"
  by (simp add: mean_map rate_or_zero_def)

lemma analyze_team_tendencies_present:
  assumes "set required_fields \<subseteq> set (columns df)"
  shows "analyze_team_tendencies df =
     Inr \<lparr> first_dragon_rate = mean (map first_dragon (rows df)),
           first_tower_rate = mean (map first_tower (rows df)),
           early_game_win_rate = Some (rate_or_zero (early_game df)),
           late_game_win_rate = Some (rate_or_zero (late_game df)),
           win_tendency = (if rate_or_zero (early_game df) > rate_or_zero (late_game df)
                           then ''early'' else ''late'') \<rparr>"
  using required_fieldsD [OF assms]
  by (simp add: analyze_team_tendencies_def col_present partition_win_rate_present
      partition_rate_value fgt_def flt_def del: not_less)

lemma all_early:
  assumes "\<forall>r\<in>set (rows df). game_duration r = 1700"
  shows "early_game df = rows df" "late_game df = []"
  using assms by (auto simp: early_game_def late_game_def filter_id_conv filter_empty_conv)

text \<open>
  C3. On every table with the four required columns the Team Tendency Analyzer returns a
  record whose early win rate is the mean of win over the rows with duration < 1800 and
  whose late win rate is the mean of win over the other rows (duration \<ge> 1800), each 0 for
  a partition without rows; win\_tendency is "early" exactly when the early rate is strictly
  greater than the late rate and "late" otherwise, so equal rates give "late". In
  particular, when the first\_dragon mean is 0.3, the first\_tower mean 0.6, every duration
  1700 and the win mean 0.5, the result has early rate 0.5, late rate 0.0 and tendency
  "early".
\<close>

theorem team_tendency_partition:
  assumes "set required_fields \<subseteq> set (columns df)"
  shows "\<exists>t. analyze_team_tendencies df = Inr t \<and>
     early_game_win_rate t = Some (rate_or_zero (filter (\<lambda>r. game_duration r < 1800) (rows df))) \<and>
     late_game_win_rate t = Some (rate_or_zero (filter (\<lambda>r. \<not> game_duration r < 1800) (rows df))) \<and>
     (win_tendency t = ''early'' \<longleftrightarrow> fgt (early_game_win_rate t) (late_game_win_rate t)) \<and>
     (win_tendency t \<noteq> ''early'' \<longrightarrow> win_tendency t = ''late'') \<and>
     (early_game_win_rate t = late_game_win_rate t \<longrightarrow> win_tendency t = ''late'') \<and>
     (mean (map first_dragon (rows df)) = Some (3 / 10) \<and>
      mean (map first_tower (rows df)) = Some (6 / 10) \<and>
      (\<forall>r\<in>set (rows df). game_duration r = 1700) \<and>
      mean (map win (rows df)) = Some (5 / 10) \<longrightarrow>
        early_game_win_rate t = Some (5 / 10) \<and> late_game_win_rate t = Some 0 \<and>
        win_tendency t = ''early'')"
proof -
  let ?e = "rate_or_zero (early_game df)" and ?l = "rate_or_zero (late_game df)"
  obtain t where t: "analyze_team_tendencies df = Inr t"
    and e: "early_game_win_rate t = Some ?e" and l: "late_game_win_rate t = Some ?l"
    and w: "win_tendency t = (if ?e > ?l then ''early'' else ''late'')"
    using analyze_team_tendencies_present [OF assms] by simp
  have late: "late_game df = filter (\<lambda>r. \<not> game_duration r < 1800) (rows df)"
    by (simp add: late_game_def not_less)
  have c1: "early_game_win_rate t =
      Some (rate_or_zero (filter (\<lambda>r. game_duration r < 1800) (rows df)))"
    using e by (simp add: early_game_def)
  have c2: "late_game_win_rate t =
      Some (rate_or_zero (filter (\<lambda>r. \<not> game_duration r < 1800) (rows df)))"
    using l by (simp add: late)
  have c3: "win_tendency t = ''early'' \<longleftrightarrow> fgt (early_game_win_rate t) (late_game_win_rate t)"
    by (simp add: e l w fgt_def flt_def)
  have c4: "win_tendency t \<noteq> ''early'' \<longrightarrow> win_tendency t = ''late''"
    by (simp add: w)
  have c5: "early_game_win_rate t = late_game_win_rate t \<longrightarrow> win_tendency t = ''late''"
    by (simp add: e l w)
  have c6: "early_game_win_rate t = Some (5 / 10) \<and> late_game_win_rate t = Some 0 \<and>
        win_tendency t = ''early''"
    if a: "\<forall>r\<in>set (rows df). game_duration r = 1700"
      and m: "mean (map win (rows df)) = Some (5 / 10)"
  proof -
    have "Some ?e = mean (map win (rows df))"
      using m all_early(1) [OF a] by (auto simp: mean_map rate_or_zero_def split: if_splits)
    then have "?e = 5 / 10" using m by simp
    moreover have "?l = 0"
      using all_early(2) [OF a] by (simp add: rate_or_zero_def)
    ultimately show ?thesis by (simp add: e l w)
  qed
  show ?thesis
    using t c1 c2 c3 c4 c5 c6 by blast
qed

theorem team_tendency_partition_witness:
  "set required_fields \<subseteq> set (columns df_ten) \<and>
   mean (map first_dragon (rows df_ten)) = Some (3 / 10) \<and>
   mean (map first_tower (rows df_ten)) = Some (6 / 10) \<and>
   list_all (\<lambda>r. game_duration r = 1700) (rows df_ten) \<and>
   mean (map win (rows df_ten)) = Some (5 / 10) \<and>
   (\<exists>t. analyze_team_tendencies df_ten = Inr t \<and>
        early_game_win_rate t = Some (5 / 10) \<and> late_game_win_rate t = Some 0 \<and>
        win_tendency t = ''early'')"
proof -
  have h: "set required_fields \<subseteq> set (columns df_ten)"
    by (simp add: required_fields_def df_ten_def all_columns_def)
  have a: "mean (map first_dragon (rows df_ten)) = Some (3 / 10)"
    "mean (map first_tower (rows df_ten)) = Some (6 / 10)"
    "list_all (\<lambda>r. game_duration r = 1700) (rows df_ten)"
    "mean (map win (rows df_ten)) = Some (5 / 10)"
    by (simp_all add: df_ten_def sample_row_def mean_def)
  have b: "\<forall>r\<in>set (rows df_ten). game_duration r = 1700"
    using a(3) by (simp add: list_all_iff)
  show ?thesis using h a b team_tendency_partition [OF h] by blast
qed

section \<open>The synthesizer recomputes the team rates\<close>

lemma how_to_win_rates_value:
  assumes "set required_fields \<subseteq> set (columns df)"
  shows "how_to_win_rates df =
     Inr (mean (map first_dragon (rows df)), Some (rate_or_zero (early_game df)),
          Some (rate_or_zero (late_game df)))"
  by (simp add: how_to_win_rates_present [OF assms] partition_rate_value)

lemma generate_unfold:
  assumes "how_to_win_rates df = Inr (d, e, l)"
  shows "generate_how_to_win_insights df =
     and_then (high_insight df d e l) (\<lambda>h.
     and_then (medium_insight df e l) (\<lambda>m. Inr [h, m, situational_insight]))"
  by (simp add: generate_how_to_win_insights_def assms)

text \<open>
  C7. On every table with the four required columns, the dragon rate, the early win rate
  and the late win rate that \<open>generate_how_to_win_insights\<close> computes before choosing
  its insights are the first\_dragon\_rate, early\_game\_win\_rate and late\_game\_win\_rate
  that \<open>analyze_team_tendencies\<close> returns on the same table, and the insights are chosen
  from exactly these values.
\<close>

theorem how_to_win_rates_agree:
  assumes "set required_fields \<subseteq> set (columns df)"
  shows "\<exists>t d e l. analyze_team_tendencies df = Inr t \<and> how_to_win_rates df = Inr (d, e, l) \<and>
     d = first_dragon_rate t \<and> e = early_game_win_rate t \<and> l = late_game_win_rate t \<and>
     generate_how_to_win_insights df =
       and_then (high_insight df (first_dragon_rate t) (early_game_win_rate t)
                   (late_game_win_rate t)) (\<lambda>h.
       and_then (medium_insight df (early_game_win_rate t) (late_game_win_rate t)) (\<lambda>m.
         Inr [h, m, situational_insight]))"
proof -
  obtain t where t: "analyze_team_tendencies df = Inr t"
    and d: "first_dragon_rate t = mean (map first_dragon (rows df))"
    and e: "early_game_win_rate t = Some (rate_or_zero (early_game df))"
    and l: "late_game_win_rate t = Some (rate_or_zero (late_game df))"
    using analyze_team_tendencies_present [OF assms] by simp
  have r: "how_to_win_rates df =
      Inr (first_dragon_rate t, early_game_win_rate t, late_game_win_rate t)"
    by (simp add: how_to_win_rates_value [OF assms] d e l)
  show ?thesis
    using t r generate_unfold [OF r] by blast
qed

theorem how_to_win_rates_agree_witness:
  "set required_fields \<subseteq> set (columns df_two) \<and>
   (\<exists>t. analyze_team_tendencies df_two = Inr t \<and>
      how_to_win_rates df_two =
        Inr (first_dragon_rate t, early_game_win_rate t, late_game_win_rate t))"
proof -
  have h: "set required_fields \<subseteq> set (columns df_two)"
    by (simp add: required_fields_def df_two_def all_columns_def)
  show ?thesis using h how_to_win_rates_agree [OF h] by blast
qed

section \<open>Rounding to binary64\<close>

lemma rne_error: "\<bar>of_int (rne q) - q\<bar> \<le> 1 / 2"
proof -
  define f where "f = \<lfloor>q\<rfloor>"
  have f: "of_int f \<le> q" "q < of_int f + 1"
    unfolding f_def by linarith+
  have r: "rne q = (if q - of_int f < 1 / 2 then f else if 1 / 2 < q - of_int f then f + 1
               else if even f then f else f + 1)"
    by (simp add: rne_def Let_def f_def)
  consider "q - of_int f < 1 / 2" | "1 / 2 < q - of_int f" | "q - of_int f = 1 / 2"
    by linarith
  then show ?thesis
  proof cases
    case 1
    then have "rne q = f" by (simp add: r)
    then show ?thesis using f 1 by simp
  next
    case 2
    then have "rne q = f + 1" by (simp add: r)
    then show ?thesis using f 2 by simp
  next
    case 3
    then have "rne q = f \<or> rne q = f + 1" by (simp add: r)
    then show ?thesis using f 3 by auto
  qed
qed

lemma exponent_small:
  assumes "x \<noteq> 0" "\<bar>x\<bar> < 2"
  shows "exponent x \<le> 0"
proof -
  obtain p q where pq: "quotient_of \<bar>x\<bar> = (p, q)" by (cases "quotient_of \<bar>x\<bar>")
  then have q: "0 < q" and x: "\<bar>x\<bar> = of_int p / of_int q"
    using quotient_of_denom_pos quotient_of_div by blast+
  have "0 < \<bar>x\<bar>" using assms(1) by simp
  then have "0 < (of_int p :: rat) / of_int q" by (simp only: x)
  then have p: "0 < p"
    using q by (simp add: zero_less_divide_iff)
  let ?d = "bitlen p - bitlen q"
  show ?thesis
  proof (cases "power_int 2 ?d \<le> \<bar>x\<bar>")
    case True
    then have "power_int (2::rat) ?d < power_int 2 1"
      using assms(2) by simp
    then have "?d < 1"
      by (rule power_int_le_imp_less_exp [rotated]) simp_all
    then show ?thesis using True by (simp add: exponent_def pq)
  next
    case False
    have bp: "2 ^ nat (bitlen p - 1) \<le> p" using bitlen_bounds [OF p] by simp
    have bq: "q < 2 ^ nat (bitlen q)" using bitlen_bounds [OF q] by simp
    have bp1: "1 \<le> bitlen p" using p by (simp add: bitlen_alt_def)
    have bq0: "0 \<le> bitlen q" by (rule bitlen_nonneg)
    have "(2::rat) ^ nat (bitlen p - 1) \<le> of_int p"
      using bp by (metis of_int_le_iff of_int_numeral of_int_power)
    moreover have "(of_int q :: rat) < 2 ^ nat (bitlen q)"
      using bq by (metis of_int_less_iff of_int_numeral of_int_power)
    ultimately have "(2::rat) ^ nat (bitlen p - 1) / 2 ^ nat (bitlen q) < of_int p / of_int q"
      using p q by (intro frac_less2) auto
    then have "(2::rat) ^ nat (bitlen p - 1) / 2 ^ nat (bitlen q) < 2"
      using assms(2) x by simp
    then have "(2::rat) ^ nat (bitlen p - 1) < 2 ^ (nat (bitlen q) + 1)"
      by (simp add: field_simps)
    then have "nat (bitlen p - 1) < nat (bitlen q) + 1"
      by (simp only: power_strict_increasing_iff [of "2::rat"] one_less_numeral_iff
          semiring_norm)
    then have "?d \<le> 1" using bp1 bq0 by linarith
    then show ?thesis using False by (simp add: exponent_def pq)
  qed
qed

lemma b64_error:
  assumes "\<bar>x\<bar> < 2"
  shows "\<bar>b64 x - x\<bar> \<le> 1 / 2 ^ 53"
proof (cases "x = 0")
  case True
  then show ?thesis by (simp add: b64_def)
next
  case False
  define u :: rat where "u = power_int 2 (exponent x - 52)"
  have u0: "0 < u" by (simp add: u_def)
  have "exponent x - 52 \<le> - 52"
    using exponent_small [OF False assms] by simp
  then have "u \<le> power_int 2 (- 52)"
    unfolding u_def by (intro power_int_increasing) auto
  then have u52: "u \<le> 1 / 2 ^ 52"
    by (simp add: power_int_minus field_simps)
  have "b64 x - x = (of_int (rne (x / u)) - x / u) * u"
    using False u0 by (simp add: b64_def u_def [symmetric] Let_def field_simps)
  then have "\<bar>b64 x - x\<bar> = \<bar>of_int (rne (x / u)) - x / u\<bar> * u"
    using u0 by (simp add: abs_mult)
  also have "\<dots> \<le> 1 / 2 * u"
    using rne_error [of "x / u"] u0 by (intro mult_right_mono) auto
  also have "\<dots> \<le> 1 / 2 * (1 / 2 ^ 52)"
    using u52 by simp
  finally show ?thesis by simp
qed

lemma rate_or_zero_range: "0 \<le> rate_or_zero part \<and> rate_or_zero part \<le> 1"
proof (cases "part = []")
  case True
  then show ?thesis by (simp add: rate_or_zero_def)
next
  case False
  have "length (filter win part) \<le> length part" by (rule length_filter_le)
  then have "(of_nat (length (filter win part)) :: rat) \<le> of_nat (length part)"
    by (simp only: of_nat_le_iff)
  then show ?thesis using False by (simp add: rate_or_zero_def)
qed

text \<open>Away from the threshold the binary64 comparison is the exact one: for rates \<open>x\<close>
  and \<open>y\<close> and a literal \<open>c\<close> up to 1/2, a margin of \<open>2^-51\<close> suffices.\<close>

lemma abs_diff_near:
  fixes a x d :: rat
  assumes "\<bar>a - x\<bar> \<le> d"
  shows "x - d \<le> a" "a \<le> x + d"
  using assms by linarith+

lemma b64_near:
  assumes "\<bar>x\<bar> < 2"
  shows "x - 1 / 2 ^ 53 \<le> b64 x" "b64 x \<le> x + 1 / 2 ^ 53"
  using b64_error [OF assms] by (rule abs_diff_near)+

lemma exceeds_sum_margin:
  assumes "0 \<le> x" "x \<le> 1" "0 \<le> y" "y \<le> 1" "0 \<le> c" "c \<le> 1 / 2"
  shows "c + 1 / 2 ^ 51 < x - y \<Longrightarrow> exceeds_sum x y c"
    and "x - y < c - 1 / 2 ^ 51 \<Longrightarrow> \<not> exceeds_sum x y c"
proof -
  define d :: rat where "d = 1 / 2 ^ 53"
  have d: "0 < d" "d < 1 / 8" "1 / 2 ^ 51 = 4 * d"
    by (simp_all add: d_def)
  have ax: "\<bar>x\<bar> < 2" and ay: "\<bar>y\<bar> < 2" and ac: "\<bar>c\<bar> < 2"
    using assms by simp_all
  note nx = b64_near [OF ax, folded d_def]
  note ny = b64_near [OF ay, folded d_def]
  note nc = b64_near [OF ac, folded d_def]
  have "\<bar>b64 y + b64 c\<bar> < 2"
    using ny nc assms d by linarith
  note ns = b64_near [OF this, folded d_def]
  show "exceeds_sum x y c" if "c + 1 / 2 ^ 51 < x - y"
    unfolding exceeds_sum_def using that nx ny nc ns unfolding d(3) by linarith
  show "\<not> exceeds_sum x y c" if "x - y < c - 1 / 2 ^ 51"
    unfolding exceeds_sum_def using that nx ny nc ns unfolding d(3) by linarith
qed

section \<open>The rule cascade of the synthesizer\<close>

lemma high_insight_cases:
  assumes "''win'' \<in> set (columns df)"
  shows "\<exists>h. high_insight df d (Some e) (Some l) = Inr h \<and>
     (recommendation h = ''FORCE DRAGON FIGHTS. DENY SOUL AT ALL COSTS.''
        \<longleftrightarrow> flt d (Some (4 / 10))) \<and>
     (\<not> flt d (Some (4 / 10)) \<longrightarrow>
        (recommendation h = ''STALL FOR LATE. PUNISH THEIR MID-GAME DESPERATION.''
           \<longleftrightarrow> exceeds_sum e l (15 / 100))) \<and>
     (\<not> flt d (Some (4 / 10)) \<and> \<not> exceeds_sum e l (15 / 100) \<longrightarrow>
        recommendation h = ''PRESS THE ADVANTAGE. DON'' @ [CHR 0x27] @ ''T LET THEM BREATHE.'' \<and>
        metric h = [Txt ''Maintain pressure ('', Pct (mean (map win (rows df))),
                    Txt '' overall win rate).''])"
  using assms
  by (auto simp add: high_insight_def col_present fgt_def flt_def fadd_def fround_def
      exceeds_sum_def)

lemma medium_insight_cases:
  assumes "''first_tower'' \<in> set (columns df)"
  shows "\<exists>m. medium_insight df (Some e) (Some l) = Inr m \<and>
     (recommendation m = ''CRASH WAVES. PUNISH WEAK ROTATIONS FOR PLATES.''
        \<longleftrightarrow> flt (mean (map first_tower (rows df))) (Some (5 / 10))) \<and>
     (\<not> flt (mean (map first_tower (rows df))) (Some (5 / 10)) \<longrightarrow>
        (recommendation m = ''INVADE EARLY. BREAK THEIR SCALING BEFORE IT STARTS.''
           \<longleftrightarrow> exceeds_sum l e (10 / 100))) \<and>
     (\<not> flt (mean (map first_tower (rows df))) (Some (5 / 10)) \<and>
      \<not> exceeds_sum l e (10 / 100) \<longrightarrow>
        recommendation m = ''CONTROL VISION. PUNISH FACE-CHECKS IN RIVER.'' \<and>
        (\<forall>p\<in>set (metric m). \<forall>x. p \<noteq> Pct x))"
  using assms
  by (auto simp add: medium_insight_def col_present fgt_def flt_def fadd_def fround_def
      exceeds_sum_def Let_def)

text \<open>
  On the 15-row table the late win rate 4/5 is above the early win rate 7/10 by exactly
  0.10, which does not exceed 0.10, and the first-tower mean is 1; the synthesizer
  nevertheless returns the invade-early recommendation, because \<open>0.7 + 0.1\<close> is
  \<open>0.7999999999999999\<close> in binary64.
\<close>

theorem insight_cascade_counterexample:
  "set required_fields \<subseteq> set (columns df_tie) \<and>
   mean (map first_tower (rows df_tie)) = Some 1 \<and>
   rate_or_zero (filter (\<lambda>r. game_duration r < 1800) (rows df_tie)) = 7 / 10 \<and>
   rate_or_zero (filter (\<lambda>r. \<not> game_duration r < 1800) (rows df_tie)) = 4 / 5 \<and>
   (4 / 5 - 7 / 10 :: rat) = 10 / 100 \<and>
   generate_how_to_win_insights df_tie = Inr [tie_high, tie_medium, situational_insight] \<and>
   recommendation tie_medium = ''INVADE EARLY. BREAK THEIR SCALING BEFORE IT STARTS.''"
proof -
  have c: "set required_fields \<subseteq> set (columns df_tie)"
    by (simp add: required_fields_def df_tie_def all_columns_def)
  have t: "mean (map first_tower (rows df_tie)) = Some 1"
    by code_simp
  have e: "rate_or_zero (filter (\<lambda>r. game_duration r < 1800) (rows df_tie)) = 7 / 10"
    by code_simp
  have l: "rate_or_zero (filter (\<lambda>r. \<not> game_duration r < 1800) (rows df_tie)) = 4 / 5"
    by code_simp
  have g: "generate_how_to_win_insights df_tie = Inr [tie_high, tie_medium, situational_insight]"
    by code_simp
  show ?thesis
    using c t e l g by (simp add: tie_medium_def)
qed

text \<open>
  C4 (amended). On every table with the four required columns the synthesizer returns
  three insights. With the early win rate the mean of win over the rows with duration
  < 1800 and the late win rate the mean over the other rows (0 for no rows): the HIGH
  insight is the force-dragon recommendation exactly when the first-dragon mean is below
  0.40; otherwise it is the stall-for-late recommendation exactly when Python's binary64
  comparison early > late + 0.15 holds; otherwise it is the press-the-advantage
  recommendation, whose metric cites the mean of win over all rows. The MEDIUM insight is
  the crash-waves recommendation exactly when the first-tower mean is below 0.50;
  otherwise the invade-early recommendation exactly when the binary64 comparison
  late > early + 0.10 holds; otherwise the vision-control insight, whose metric cites no
  rate. The binary64 comparison holds whenever the difference of the rates exceeds the
  threshold by more than \<open>2^-51\<close> and fails whenever it is below the threshold by more
  than \<open>2^-51\<close>; only closer to the threshold does rounding decide.
\<close>

theorem insight_cascade:
  fixes df :: dataframe
  defines "e \<equiv> rate_or_zero (filter (\<lambda>r. game_duration r < 1800) (rows df))"
    and "l \<equiv> rate_or_zero (filter (\<lambda>r. \<not> game_duration r < 1800) (rows df))"
  assumes "set required_fields \<subseteq> set (columns df)"
  shows "\<exists>h m s. generate_how_to_win_insights df = Inr [h, m, s] \<and>
     (recommendation h = ''FORCE DRAGON FIGHTS. DENY SOUL AT ALL COSTS.''
        \<longleftrightarrow> flt (mean (map first_dragon (rows df))) (Some (4 / 10))) \<and>
     (\<not> flt (mean (map first_dragon (rows df))) (Some (4 / 10)) \<longrightarrow>
        (recommendation h = ''STALL FOR LATE. PUNISH THEIR MID-GAME DESPERATION.''
           \<longleftrightarrow> exceeds_sum e l (15 / 100))) \<and>
     (\<not> flt (mean (map first_dragon (rows df))) (Some (4 / 10)) \<and>
      \<not> exceeds_sum e l (15 / 100) \<longrightarrow>
        recommendation h = ''PRESS THE ADVANTAGE. DON'' @ [CHR 0x27] @ ''T LET THEM BREATHE.'' \<and>
        metric h = [Txt ''Maintain pressure ('', Pct (mean (map win (rows df))),
                    Txt '' overall win rate).'']) \<and>
     (recommendation m = ''CRASH WAVES. PUNISH WEAK ROTATIONS FOR PLATES.''
        \<longleftrightarrow> flt (mean (map first_tower (rows df))) (Some (5 / 10))) \<and>
     (\<not> flt (mean (map first_tower (rows df))) (Some (5 / 10)) \<longrightarrow>
        (recommendation m = ''INVADE EARLY. BREAK THEIR SCALING BEFORE IT STARTS.''
           \<longleftrightarrow> exceeds_sum l e (10 / 100))) \<and>
     (\<not> flt (mean (map first_tower (rows df))) (Some (5 / 10)) \<and>
      \<not> exceeds_sum l e (10 / 100) \<longrightarrow>
        recommendation m = ''CONTROL VISION. PUNISH FACE-CHECKS IN RIVER.'' \<and>
        (\<forall>p\<in>set (metric m). \<forall>x. p \<noteq> Pct x)) \<and>
     (15 / 100 + 1 / 2 ^ 51 < e - l \<longrightarrow> exceeds_sum e l (15 / 100)) \<and>
     (e - l < 15 / 100 - 1 / 2 ^ 51 \<longrightarrow> \<not> exceeds_sum e l (15 / 100)) \<and>
     (10 / 100 + 1 / 2 ^ 51 < l - e \<longrightarrow> exceeds_sum l e (10 / 100)) \<and>
     (l - e < 10 / 100 - 1 / 2 ^ 51 \<longrightarrow> \<not> exceeds_sum l e (10 / 100))"
proof -
  note req = required_fieldsD [OF assms(3)]
  let ?d = "mean (map first_dragon (rows df))"
  have el: "e = rate_or_zero (early_game df)" "l = rate_or_zero (late_game df)"
    by (simp_all add: e_def l_def early_game_def late_game_def not_less)
  from high_insight_cases [OF req(4), of ?d e l]
  obtain h where h: "high_insight df ?d (Some e) (Some l) = Inr h"
    and h1: "recommendation h = ''FORCE DRAGON FIGHTS. DENY SOUL AT ALL COSTS.''
        \<longleftrightarrow> flt ?d (Some (4 / 10))"
    and h2: "\<not> flt ?d (Some (4 / 10)) \<longrightarrow>
        (recommendation h = ''STALL FOR LATE. PUNISH THEIR MID-GAME DESPERATION.''
           \<longleftrightarrow> exceeds_sum e l (15 / 100))"
    and h3: "\<not> flt ?d (Some (4 / 10)) \<and> \<not> exceeds_sum e l (15 / 100) \<longrightarrow>
        recommendation h = ''PRESS THE ADVANTAGE. DON'' @ [CHR 0x27] @ ''T LET THEM BREATHE.'' \<and>
        metric h = [Txt ''Maintain pressure ('', Pct (mean (map win (rows df))),
                    Txt '' overall win rate).'']"
    by blast
  from medium_insight_cases [OF req(2), of e l]
  obtain m where m: "medium_insight df (Some e) (Some l) = Inr m"
    and m1: "recommendation m = ''CRASH WAVES. PUNISH WEAK ROTATIONS FOR PLATES.''
        \<longleftrightarrow> flt (mean (map first_tower (rows df))) (Some (5 / 10))"
    and m2: "\<not> flt (mean (map first_tower (rows df))) (Some (5 / 10)) \<longrightarrow>
        (recommendation m = ''INVADE EARLY. BREAK THEIR SCALING BEFORE IT STARTS.''
           \<longleftrightarrow> exceeds_sum l e (10 / 100))"
    and m3: "\<not> flt (mean (map first_tower (rows df))) (Some (5 / 10)) \<and>
      \<not> exceeds_sum l e (10 / 100) \<longrightarrow>
        recommendation m = ''CONTROL VISION. PUNISH FACE-CHECKS IN RIVER.'' \<and>
        (\<forall>p\<in>set (metric m). \<forall>x. p \<noteq> Pct x)"
    by blast
  have g: "generate_how_to_win_insights df = Inr [h, m, situational_insight]"
    using h m
    by (simp add: generate_unfold [OF how_to_win_rates_value [OF assms(3)]] el)
  have r: "0 \<le> e" "e \<le> 1" "0 \<le> l" "l \<le> 1"
    using rate_or_zero_range by (simp_all add: e_def l_def)
  have b1: "15 / 100 + 1 / 2 ^ 51 < e - l \<longrightarrow> exceeds_sum e l (15 / 100)"
    using exceeds_sum_margin(1) [OF r, of "15 / 100"] by simp
  have b2: "e - l < 15 / 100 - 1 / 2 ^ 51 \<longrightarrow> \<not> exceeds_sum e l (15 / 100)"
    using exceeds_sum_margin(2) [OF r, of "15 / 100"] by simp
  have b3: "10 / 100 + 1 / 2 ^ 51 < l - e \<longrightarrow> exceeds_sum l e (10 / 100)"
    using exceeds_sum_margin(1) [OF r(3,4,1,2), of "10 / 100"] by simp
  have b4: "l - e < 10 / 100 - 1 / 2 ^ 51 \<longrightarrow> \<not> exceeds_sum l e (10 / 100)"
    using exceeds_sum_margin(2) [OF r(3,4,1,2), of "10 / 100"] by simp
  show ?thesis
    using g h1 h2 h3 m1 m2 m3 b1 b2 b3 b4 by blast
qed

theorem insight_cascade_witness:
  "set required_fields \<subseteq> set (columns df_two) \<and>
   \<not> flt (mean (map first_dragon (rows df_two))) (Some (4 / 10)) \<and>
   15 / 100 + 1 / 2 ^ 51 <
     rate_or_zero (filter (\<lambda>r. game_duration r < 1800) (rows df_two)) -
     rate_or_zero (filter (\<lambda>r. \<not> game_duration r < 1800) (rows df_two)) \<and>
   \<not> flt (mean (map first_tower (rows df_two))) (Some (5 / 10)) \<and>
   rate_or_zero (filter (\<lambda>r. \<not> game_duration r < 1800) (rows df_two)) -
     rate_or_zero (filter (\<lambda>r. game_duration r < 1800) (rows df_two)) < 10 / 100 - 1 / 2 ^ 51 \<and>
   (\<exists>h m s. generate_how_to_win_insights df_two = Inr [h, m, s] \<and>
      recommendation h = ''STALL FOR LATE. PUNISH THEIR MID-GAME DESPERATION.'' \<and>
      recommendation m = ''CONTROL VISION. PUNISH FACE-CHECKS IN RIVER.'' \<and>
      (\<forall>p\<in>set (metric m). \<forall>x. p \<noteq> Pct x))"
proof -
  have h: "set required_fields \<subseteq> set (columns df_two)"
    by (simp add: required_fields_def df_two_def all_columns_def)
  have a: "\<not> flt (mean (map first_dragon (rows df_two))) (Some (4 / 10))"
    "15 / 100 + 1 / 2 ^ 51 <
     rate_or_zero (filter (\<lambda>r. game_duration r < 1800) (rows df_two)) -
     rate_or_zero (filter (\<lambda>r. \<not> game_duration r < 1800) (rows df_two))"
    "\<not> flt (mean (map first_tower (rows df_two))) (Some (5 / 10))"
    "rate_or_zero (filter (\<lambda>r. \<not> game_duration r < 1800) (rows df_two)) -
     rate_or_zero (filter (\<lambda>r. game_duration r < 1800) (rows df_two)) < 10 / 100 - 1 / 2 ^ 51"
    by (simp_all add: df_two_def sample_row_def mean_def rate_or_zero_def flt_def)
  show ?thesis using h a insight_cascade [OF h] by blast
qed

section \<open>Counting and selecting\<close>

lemma set_first_seen [simp]: "set (first_seen xs) = set xs"
  by (simp add: first_seen_def)

lemma distinct_first_seen [simp]: "distinct (first_seen xs)"
  by (simp add: first_seen_def)

lemma set_value_counts: "set (value_counts xs) = (\<lambda>x. (x, count_list xs x)) ` set xs"
  by (simp add: value_counts_def)

lemma first_max_mem: "first_max p ps \<in> set (p # ps)"
  by (induction ps arbitrary: p) (simp, force)

lemma first_max_ge: "q \<in> set (p # ps) \<Longrightarrow> snd q \<le> snd (first_max p ps)"
proof (induction ps arbitrary: p q)
  case Nil
  then show ?case by simp
next
  case (Cons a ps)
  have *: "snd p \<le> snd (first_max (if snd p < snd a then a else p) ps)"
    "snd a \<le> snd (first_max (if snd p < snd a then a else p) ps)"
    using Cons.IH [of p "if snd p < snd a then a else p"]
      Cons.IH [of a "if snd p < snd a then a else p"]
      Cons.IH [of "if snd p < snd a then a else p" "if snd p < snd a then a else p"]
    by (auto split: if_splits)
  from Cons.prems consider "q = p" | "q = a" | "q \<in> set ps" by auto
  then show ?case
    using * Cons.IH [of q "if snd p < snd a then a else p"] by cases auto
qed

lemma idxmax_series_max:
  assumes "s \<noteq> []"
  shows "(idxmax s, series_max s) \<in> set s" "\<forall>q\<in>set s. snd q \<le> series_max s"
proof -
  obtain p ps where s: "s = p # ps" using assms by (cases s) auto
  show "(idxmax s, series_max s) \<in> set s"
    using first_max_mem [of p ps] by (simp add: s idxmax_def series_max_def)
  show "\<forall>q\<in>set s. snd q \<le> series_max s"
    using first_max_ge [of _ p ps] by (simp add: s series_max_def)
qed

text \<open>What the selection step of the role loop yields for the champions of one role.\<close>

lemma selection:
  fixes champs :: "string list"
  defines "filtered \<equiv> filter (\<lambda>p. snd p \<ge> 2) (value_counts champs)"
  assumes "filtered \<noteq> []"
  shows "series_max filtered \<ge> 2"
    and "count_list champs (idxmax filtered) = series_max filtered"
    and "count_list champs c \<le> series_max filtered"
proof -
  note m = idxmax_series_max [OF assms(2)]
  from m(1) have mem: "(idxmax filtered, series_max filtered) \<in> set (value_counts champs)"
    and two: "series_max filtered \<ge> 2"
    by (auto simp: filtered_def)
  show "series_max filtered \<ge> 2" by (rule two)
  show "count_list champs (idxmax filtered) = series_max filtered"
    using mem by (auto simp: set_value_counts)
  show "count_list champs c \<le> series_max filtered"
  proof (cases "count_list champs c \<ge> 2")
    case True
    then have "c \<in> set champs" using count_list_0_iff [of champs c] by (cases "c \<in> set champs") auto
    then have "(c, count_list champs c) \<in> set filtered"
      using True by (auto simp: filtered_def set_value_counts)
    then show ?thesis using m(2) by fastforce
  next
    case False
    then show ?thesis using two by simp
  qed
qed

lemma filtered_empty_iff:
  "filter (\<lambda>p. snd p \<ge> 2) (value_counts champs) = [] \<longleftrightarrow> (\<forall>c. count_list champs c < 2)"
proof
  assume e: "filter (\<lambda>p. snd p \<ge> 2) (value_counts champs) = []"
  show "\<forall>c. count_list champs c < 2"
  proof
    fix c
    show "count_list champs c < 2"
    proof (cases "c \<in> set champs")
      case True
      then have "(c, count_list champs c) \<in> set (value_counts champs)"
        by (auto simp: set_value_counts)
      then show ?thesis using e by (auto simp: filter_empty_conv)
    next
      case False
      then show ?thesis by simp
    qed
  qed
next
  assume "\<forall>c. count_list champs c < 2"
  then show "filter (\<lambda>p. snd p \<ge> 2) (value_counts champs) = []"
    by (auto simp: filter_empty_conv set_value_counts not_le)
qed


lemma role_loop_step:
  "role_loop df rs (rl # rls) =
     (let role_df = filter (\<lambda>r. role r = rl) rs;
          filtered = filter (\<lambda>p. snd p \<ge> 2) (value_counts (map champion role_df))
      in if filtered = [] then role_loop df rs rls
         else and_then (col_of df (filter (\<lambda>r. champion r = idxmax filtered) role_df) ''win'' win)
           (\<lambda>ws. and_then (role_loop df rs rls) (\<lambda>results.
             Inr ((rl, \<lparr> most_played_champion = idxmax filtered,
                    win_rate = mean ws,
                    count = series_max filtered,
                    priority =
                       (if series_max filtered \<ge> 3 \<and>
                           (fge (mean ws) (Some (7 / 10)) \<or> fle (mean ws) (Some (3 / 10)))
                        then ''HIGH''
                        else if series_max filtered \<ge> 2 \<and>
                           (fge (mean ws) (Some (6 / 10)) \<or> fle (mean ws) (Some (4 / 10)))
                        then ''MEDIUM''
                        else ''LOW''),
                    action =
                       (if fge (mean ws) (Some (6 / 10)) then ''DENY COMFORT PICK''
                        else if fle (mean ws) (Some (4 / 10)) then ''FORCE LOSING MATCHUP''
                        else ''IGNORE AND PLAY CROSS-MAP'') \<rparr>) # results))))"
proof -
  have "value_counts (map champion (filter (\<lambda>r. role r = rl) rs)) = [] \<Longrightarrow>
        filter (\<lambda>p. snd p \<ge> 2) (value_counts (map champion (filter (\<lambda>r. role r = rl) rs))) = []"
    by simp
  moreover have "filter (\<lambda>r. role r = rl) rs = [] \<Longrightarrow>
        filter (\<lambda>p. snd p \<ge> 2) (value_counts (map champion (filter (\<lambda>r. role r = rl) rs))) = []"
    by (simp add: value_counts_def first_seen_def)
  ultimately show ?thesis
    by (auto simp add: Let_def simp del: filter_filter)
qed


lemma role_loop_entry:
  assumes "role_loop df rs rls = Inr res" "(rl, t) \<in> set res"
  shows "rl \<in> set rls \<and>
    (let role_df = filter (\<lambda>r. role r = rl) rs;
         filtered = filter (\<lambda>p. snd p \<ge> 2) (value_counts (map champion role_df))
     in filtered \<noteq> [] \<and>
        most_played_champion t = idxmax filtered \<and>
        role_tendency.count t = series_max filtered \<and>
        win_rate t = mean (map win (filter (\<lambda>r. champion r = idxmax filtered) role_df)) \<and>
        role_tendency.priority t =
          (if role_tendency.count t \<ge> 3 \<and>
              (fge (win_rate t) (Some (7 / 10)) \<or> fle (win_rate t) (Some (3 / 10)))
           then ''HIGH''
           else if role_tendency.count t \<ge> 2 \<and>
              (fge (win_rate t) (Some (6 / 10)) \<or> fle (win_rate t) (Some (4 / 10)))
           then ''MEDIUM''
           else ''LOW'') \<and>
        action t =
          (if fge (win_rate t) (Some (6 / 10)) then ''DENY COMFORT PICK''
           else if fle (win_rate t) (Some (4 / 10)) then ''FORCE LOSING MATCHUP''
           else ''IGNORE AND PLAY CROSS-MAP''))"
  using assms
proof (induction rls arbitrary: res)
  case Nil
  then show ?case by simp
next
  case (Cons r rls)
  let ?role_df = "filter (\<lambda>x. role x = r) rs"
  let ?F = "filter (\<lambda>p. snd p \<ge> 2) (value_counts (map champion ?role_df))"
  show ?case
  proof (cases "?F = []")
    case True
    then have "role_loop df rs rls = Inr res"
      using Cons.prems(1) by (simp add: role_loop_step Let_def del: role_loop.simps)
    from Cons.IH [OF this Cons.prems(2)] show ?thesis by simp
  next
    case False
    have w: "''win'' \<in> set (columns df)"
    proof (rule ccontr)
      assume "''win'' \<notin> set (columns df)"
      then show False
        using Cons.prems(1) False
        by (simp add: role_loop_step Let_def col_of_def del: role_loop.simps)
    qed
    obtain results where rest: "role_loop df rs rls = Inr results"
      using Cons.prems(1) False w
      by (cases "role_loop df rs rls")
        (simp_all add: role_loop_step Let_def col_of_def del: role_loop.simps)
    define ws where "ws = map win (filter (\<lambda>x. champion x = idxmax ?F) ?role_df)"
    define e where "e =
      \<lparr> most_played_champion = idxmax ?F, win_rate = mean ws, count = series_max ?F,
        priority =
          (if series_max ?F \<ge> 3 \<and> (fge (mean ws) (Some (7 / 10)) \<or> fle (mean ws) (Some (3 / 10)))
           then ''HIGH''
           else if series_max ?F \<ge> 2 \<and>
              (fge (mean ws) (Some (6 / 10)) \<or> fle (mean ws) (Some (4 / 10)))
           then ''MEDIUM''
           else ''LOW''),
        action =
          (if fge (mean ws) (Some (6 / 10)) then ''DENY COMFORT PICK''
           else if fle (mean ws) (Some (4 / 10)) then ''FORCE LOSING MATCHUP''
           else ''IGNORE AND PLAY CROSS-MAP'') \<rparr>"
    have "role_loop df rs (r # rls) = Inr ((r, e) # results)"
      unfolding role_loop_step Let_def e_def ws_def
      using False w rest by (simp add: col_of_def del: filter_filter)
    then have res: "res = (r, e) # results"
      using Cons.prems(1) by simp
    have e: "most_played_champion e = idxmax ?F" "role_tendency.count e = series_max ?F"
        "win_rate e = mean (map win (filter (\<lambda>x. champion x = idxmax ?F) ?role_df))"
        "role_tendency.priority e =
          (if role_tendency.count e \<ge> 3 \<and>
              (fge (win_rate e) (Some (7 / 10)) \<or> fle (win_rate e) (Some (3 / 10)))
           then ''HIGH''
           else if role_tendency.count e \<ge> 2 \<and>
              (fge (win_rate e) (Some (6 / 10)) \<or> fle (win_rate e) (Some (4 / 10)))
           then ''MEDIUM''
           else ''LOW'')"
        "action e =
          (if fge (win_rate e) (Some (6 / 10)) then ''DENY COMFORT PICK''
           else if fle (win_rate e) (Some (4 / 10)) then ''FORCE LOSING MATCHUP''
           else ''IGNORE AND PLAY CROSS-MAP'')"
      by (simp_all add: e_def ws_def del: filter_filter)
    from Cons.prems(2) res consider "rl = r" "t = e" | "(rl, t) \<in> set results" by auto
    then show ?thesis
    proof cases
      case 1
      then show ?thesis using False e by (simp add: Let_def del: filter_filter)
    next
      case 2
      from Cons.IH [OF rest this] show ?thesis by simp
    qed
  qed
qed

section \<open>Player tendencies: tiers and actions\<close>

lemma analyze_player_tendencies_eq:
  "analyze_player_tendencies df roles =
     (if ''role'' \<notin> set (columns df) \<or> ''champion'' \<notin> set (columns df) then Inr []
      else role_loop df (filtered_rows df roles) (groupby_keys (map role (filtered_rows df roles))))"
  by (simp add: analyze_player_tendencies_def filtered_rows_def Let_def)

lemma filtered_rows_role:
  assumes "rl \<in> role ` set (filtered_rows df roles)"
  shows "filter (\<lambda>r. role r = rl) (filtered_rows df roles) = filter (\<lambda>r. role r = rl) (rows df)"
proof (cases roles)
  case None
  then show ?thesis by (simp add: filtered_rows_def)
next
  case (Some xs)
  show ?thesis
  proof (cases xs)
    case Nil
    then show ?thesis using Some by (simp add: filtered_rows_def)
  next
    case (Cons y ys)
    then have "rl \<in> set xs" using assms Some by (auto simp: filtered_rows_def)
    then show ?thesis using Some Cons by (auto simp: filtered_rows_def intro: filter_cong)
  qed
qed

lemma analyze_entry:
  assumes "analyze_player_tendencies df roles = Inr res" "(rl, t) \<in> set res"
  shows "rl \<in> role ` set (filtered_rows df roles)"
    and "role_loop df (filtered_rows df roles) (groupby_keys (map role (filtered_rows df roles)))
         = Inr res"
proof -
  have nonempty: "res \<noteq> []" using assms(2) by auto
  then show loop: "role_loop df (filtered_rows df roles)
      (groupby_keys (map role (filtered_rows df roles))) = Inr res"
    using assms(1) by (auto simp: analyze_player_tendencies_eq split: if_splits)
  from role_loop_entry [OF loop assms(2)]
  show "rl \<in> role ` set (filtered_rows df roles)"
    by (simp add: groupby_keys_def)
qed

text \<open>
  C2. For every role in the result of the Player Tendency Analyzer, the entry's game
  count is the number of games of the selected champion in that role and its win rate is
  the mean of win over those games; the priority tier is HIGH if games \<ge> 3 and (win rate
  \<ge> 0.70 or win rate \<le> 0.30), else MEDIUM if games \<ge> 2 and (win rate \<ge> 0.60 or win rate
  \<le> 0.40), else LOW; the action is "DENY COMFORT PICK" if win rate \<ge> 0.60, "FORCE LOSING
  MATCHUP" if win rate \<le> 0.40, and "IGNORE AND PLAY CROSS-MAP" otherwise.
\<close>

theorem priority_cascade:
  assumes "analyze_player_tendencies df roles = Inr res" "(rl, t) \<in> set res"
  shows "role_tendency.count t = count_list (role_champions df rl) (most_played_champion t) \<and>
     win_rate t = mean (map win (filter (\<lambda>r. role r = rl \<and> champion r = most_played_champion t)
                                   (rows df))) \<and>
     role_tendency.priority t =
       (if role_tendency.count t \<ge> 3 \<and>
           (fge (win_rate t) (Some (70 / 100)) \<or> fle (win_rate t) (Some (30 / 100)))
        then ''HIGH''
        else if role_tendency.count t \<ge> 2 \<and>
           (fge (win_rate t) (Some (60 / 100)) \<or> fle (win_rate t) (Some (40 / 100)))
        then ''MEDIUM''
        else ''LOW'') \<and>
     action t =
       (if fge (win_rate t) (Some (60 / 100)) then ''DENY COMFORT PICK''
        else if fle (win_rate t) (Some (40 / 100)) then ''FORCE LOSING MATCHUP''
        else ''IGNORE AND PLAY CROSS-MAP'')"
proof -
  note a = analyze_entry [OF assms]
  let ?role_df = "filter (\<lambda>r. role r = rl) (rows df)"
  let ?F = "filter (\<lambda>p. snd p \<ge> 2) (value_counts (map champion ?role_df))"
  from role_loop_entry [OF a(2) assms(2)]
  have F: "?F \<noteq> []" and m: "most_played_champion t = idxmax ?F"
    and c: "role_tendency.count t = series_max ?F"
    and w: "win_rate t = mean (map win (filter (\<lambda>r. champion r = idxmax ?F) ?role_df))"
    and p: "role_tendency.priority t =
       (if role_tendency.count t \<ge> 3 \<and>
           (fge (win_rate t) (Some (7 / 10)) \<or> fle (win_rate t) (Some (3 / 10)))
        then ''HIGH''
        else if role_tendency.count t \<ge> 2 \<and>
           (fge (win_rate t) (Some (6 / 10)) \<or> fle (win_rate t) (Some (4 / 10)))
        then ''MEDIUM''
        else ''LOW'')"
    and ac: "action t =
       (if fge (win_rate t) (Some (6 / 10)) then ''DENY COMFORT PICK''
        else if fle (win_rate t) (Some (4 / 10)) then ''FORCE LOSING MATCHUP''
        else ''IGNORE AND PLAY CROSS-MAP'')"
    unfolding Let_def filtered_rows_role [OF a(1)] by blast+
  have c1: "role_tendency.count t = count_list (role_champions df rl) (most_played_champion t)"
    using selection(2) [OF F] by (simp add: c m role_champions_def)
  have "filter (\<lambda>r. champion r = idxmax ?F) ?role_df =
      filter (\<lambda>r. role r = rl \<and> champion r = most_played_champion t) (rows df)"
    by (auto simp: m intro: filter_cong)
  then have c2: "win_rate t = mean (map win
      (filter (\<lambda>r. role r = rl \<and> champion r = most_played_champion t) (rows df)))"
    using w by simp
  have c3: "role_tendency.priority t =
       (if role_tendency.count t \<ge> 3 \<and>
           (fge (win_rate t) (Some (70 / 100)) \<or> fle (win_rate t) (Some (30 / 100)))
        then ''HIGH''
        else if role_tendency.count t \<ge> 2 \<and>
           (fge (win_rate t) (Some (60 / 100)) \<or> fle (win_rate t) (Some (40 / 100)))
        then ''MEDIUM''
        else ''LOW'')"
    using p by simp
  have c4: "action t =
       (if fge (win_rate t) (Some (60 / 100)) then ''DENY COMFORT PICK''
        else if fle (win_rate t) (Some (40 / 100)) then ''FORCE LOSING MATCHUP''
        else ''IGNORE AND PLAY CROSS-MAP'')"
    using ac by simp
  show ?thesis using c1 c2 c3 c4 by blast
qed

theorem priority_cascade_witness:
  "analyze_player_tendencies df_top None = Inr [(''TOP'', top_tendency)] \<and>
   (''TOP'', top_tendency) \<in> set [(''TOP'', top_tendency)] \<and>
   role_tendency.count top_tendency = 3 \<and> win_rate top_tendency = Some 1 \<and>
   fge (win_rate top_tendency) (Some (70 / 100)) \<and>
   role_tendency.priority top_tendency = ''HIGH'' \<and> action top_tendency = ''DENY COMFORT PICK''"
proof -
  have r: "analyze_player_tendencies df_top None = Inr [(''TOP'', top_tendency)]"
    by code_simp
  have m: "(''TOP'', top_tendency) \<in> set [(''TOP'', top_tendency)]"
    by simp
  have v: "role_tendency.count top_tendency = 3" "win_rate top_tendency = Some 1"
    "fge (win_rate top_tendency) (Some (70 / 100))"
    by (simp_all add: top_tendency_def fge_def fle_def)
  show ?thesis
    using r m v priority_cascade [OF r m] by (simp add: fge_def fle_def)
qed

section \<open>Player tendencies: low-sample suppression\<close>

lemma role_loop_total:
  assumes "''win'' \<in> set (columns df)"
  shows "\<exists>res. role_loop df rs rls = Inr res"
proof (induction rls)
  case Nil
  then show ?case by simp
next
  case (Cons r rls)
  then obtain results where "role_loop df rs rls = Inr results" by blast
  then show ?case
    using assms by (simp add: role_loop_step Let_def col_of_def del: role_loop.simps)
qed

lemma role_loop_complete:
  assumes "role_loop df rs rls = Inr res" "rl \<in> set rls"
    "filter (\<lambda>p. snd p \<ge> 2) (value_counts (map champion (filter (\<lambda>r. role r = rl) rs))) \<noteq> []"
  shows "rl \<in> fst ` set res"
  using assms(1,2)
proof (induction rls arbitrary: res)
  case Nil
  then show ?case by simp
next
  case (Cons r rls)
  let ?F = "\<lambda>x. filter (\<lambda>p. snd p \<ge> 2) (value_counts (map champion (filter (\<lambda>r. role r = x) rs)))"
  show ?case
  proof (cases "?F r = []")
    case True
    then have loop: "role_loop df rs rls = Inr res"
      using Cons.prems(1) by (simp add: role_loop_step Let_def del: role_loop.simps)
    have "rl \<noteq> r" using True assms(3) by auto
    then have "rl \<in> set rls" using Cons.prems(2) by simp
    from Cons.IH [OF loop this] show ?thesis .
  next
    case False
    have w: "''win'' \<in> set (columns df)"
    proof (rule ccontr)
      assume "''win'' \<notin> set (columns df)"
      then show False
        using Cons.prems(1) False
        by (simp add: role_loop_step Let_def col_of_def del: role_loop.simps)
    qed
    obtain results where rest: "role_loop df rs rls = Inr results"
      using role_loop_total [OF w] by blast
    have "\<exists>e. Inr ((r, e) # results) = role_loop df rs (r # rls)"
      unfolding role_loop_step Let_def
      using False w rest by (simp add: col_of_def del: filter_filter)
    then obtain e where res: "res = (r, e) # results"
      using Cons.prems(1) by auto
    show ?thesis
    proof (cases "rl = r")
      case True
      then show ?thesis by (simp add: res)
    next
      case False
      then have "rl \<in> set rls" using Cons.prems(2) by simp
      from Cons.IH [OF rest this] show ?thesis by (simp add: res)
    qed
  qed
qed

lemma analyze_player_tendencies_total:
  assumes "''win'' \<in> set (columns df)"
  shows "\<exists>res. analyze_player_tendencies df roles = Inr res"
  using role_loop_total [OF assms] by (simp add: analyze_player_tendencies_eq)

text \<open>
  C9. The Player Tendency Analyzer does not fail on a table that has the win column.
  Whenever it returns, every entry of the result has a game count of at least 2, this
  count is the number of games of the selected champion in that role, and no champion of
  the role has more games; a role in which every champion has fewer than 2 games has no
  entry at all; and (when the role and champion columns exist) a role that passes the
  filter and has some champion with at least 2 games does have an entry.
\<close>

theorem low_sample_suppression:
  "(''win'' \<in> set (columns df) \<longrightarrow> (\<exists>res. analyze_player_tendencies df roles = Inr res)) \<and>
   (\<forall>res. analyze_player_tendencies df roles = Inr res \<longrightarrow>
      (\<forall>(rl, t) \<in> set res.
          role_tendency.count t \<ge> 2 \<and>
          count_list (role_champions df rl) (most_played_champion t) = role_tendency.count t \<and>
          (\<forall>c. count_list (role_champions df rl) c \<le> role_tendency.count t)) \<and>
      (\<forall>rl. (\<forall>c. count_list (role_champions df rl) c < 2) \<longrightarrow> rl \<notin> fst ` set res) \<and>
      (''role'' \<in> set (columns df) \<and> ''champion'' \<in> set (columns df) \<longrightarrow>
       (\<forall>rl \<in> role ` set (filtered_rows df roles).
          (\<exists>c. count_list (role_champions df rl) c \<ge> 2) \<longrightarrow> rl \<in> fst ` set res)))"
proof -
  have entry: "role_tendency.count t \<ge> 2 \<and>
          count_list (role_champions df rl) (most_played_champion t) = role_tendency.count t \<and>
          (\<forall>c. count_list (role_champions df rl) c \<le> role_tendency.count t)"
    if r: "analyze_player_tendencies df roles = Inr res" and m: "(rl, t) \<in> set res"
    for res rl t
  proof -
    note a = analyze_entry [OF r m]
    let ?F = "filter (\<lambda>p. snd p \<ge> 2)
        (value_counts (map champion (filter (\<lambda>r. role r = rl) (rows df))))"
    from role_loop_entry [OF a(2) m]
    have F: "?F \<noteq> []" and i: "most_played_champion t = idxmax ?F"
      and c: "role_tendency.count t = series_max ?F"
      unfolding Let_def filtered_rows_role [OF a(1)] by blast+
    show ?thesis
      using selection [OF F] by (simp add: i c role_champions_def)
  qed
  have absent: "rl \<notin> fst ` set res"
    if r: "analyze_player_tendencies df roles = Inr res"
      and low: "\<forall>c. count_list (role_champions df rl) c < 2"
    for res rl
  proof
    assume "rl \<in> fst ` set res"
    then obtain t where m: "(rl, t) \<in> set res" by auto
    from entry [OF r m] low show False
      by (metis not_less)
  qed
  have present: "rl \<in> fst ` set res"
    if r: "analyze_player_tendencies df roles = Inr res"
      and cols: "''role'' \<in> set (columns df)" "''champion'' \<in> set (columns df)"
      and rl: "rl \<in> role ` set (filtered_rows df roles)"
      and c: "count_list (role_champions df rl) c \<ge> 2"
    for res rl c
  proof -
    have loop: "role_loop df (filtered_rows df roles)
        (groupby_keys (map role (filtered_rows df roles))) = Inr res"
      using r cols by (simp add: analyze_player_tendencies_eq)
    have key: "rl \<in> set (groupby_keys (map role (filtered_rows df roles)))"
      using rl by (simp add: groupby_keys_def)
    have "\<not> (\<forall>c. count_list (role_champions df rl) c < 2)"
      using c by (auto simp: not_less)
    then have "filter (\<lambda>p. snd p \<ge> 2) (value_counts
        (map champion (filter (\<lambda>r. role r = rl) (filtered_rows df roles)))) \<noteq> []"
      unfolding filtered_rows_role [OF rl] filtered_empty_iff role_champions_def .
    from role_loop_complete [OF loop key this] show ?thesis .
  qed
  show ?thesis
    using analyze_player_tendencies_total entry absent present by blast
qed

theorem low_sample_suppression_witness:
  "''win'' \<in> set (columns df_top) \<and>
   analyze_player_tendencies df_top None = Inr [(''TOP'', top_tendency)] \<and>
   (\<forall>c. count_list (role_champions df_top ''MID'') c < 2) \<and>
   ''MID'' \<notin> fst ` set [(''TOP'', top_tendency)] \<and>
   role_tendency.count top_tendency \<ge> 2"
proof -
  have w: "''win'' \<in> set (columns df_top)"
    by (simp add: df_top_def all_columns_def)
  have r: "analyze_player_tendencies df_top None = Inr [(''TOP'', top_tendency)]"
    by code_simp
  have "role_champions df_top ''MID'' = [''C'']"
    by (simp add: role_champions_def df_top_def player_row_def)
  then have low: "\<forall>c. count_list (role_champions df_top ''MID'') c < 2"
    by simp
  from low_sample_suppression [of df_top None] r low
  have "''MID'' \<notin> fst ` set [(''TOP'', top_tendency)]"
    and "role_tendency.count top_tendency \<ge> 2"
    by auto
  then show ?thesis using w r low by blast
qed

section \<open>Player tendencies: the roles filter\<close>

lemma filtered_rows_all:
  "filtered_rows df (Some (groupby_keys (map role (rows df)))) = rows df"
proof (cases "groupby_keys (map role (rows df))")
  case Nil
  then show ?thesis by (simp add: filtered_rows_def)
next
  case (Cons x xs)
  have "set (groupby_keys (map role (rows df))) = role ` set (rows df)"
    by (simp add: groupby_keys_def)
  then have "filter (\<lambda>r. role r \<in> set (x # xs)) (rows df) = rows df"
    using Cons by (simp add: filter_id_conv)
  then show ?thesis using Cons by (simp add: filtered_rows_def)
qed

text \<open>
  C10. Passing the empty list as the roles filter gives the same result as passing no
  filter, which is also the result of passing the list of every role present in the table:
  the empty filter selects all roles, not none. With the empty filter the call returns
  whenever the win column exists, and (the role and champion columns existing) every role
  present in the table that has a champion with at least 2 games has an entry in the
  result.
\<close>

theorem empty_roles_filter:
  "analyze_player_tendencies df (Some []) = analyze_player_tendencies df None \<and>
   analyze_player_tendencies df (Some []) =
     analyze_player_tendencies df (Some (groupby_keys (map role (rows df)))) \<and>
   (''win'' \<in> set (columns df) \<longrightarrow>
      (\<exists>res. analyze_player_tendencies df (Some []) = Inr res)) \<and>
   (\<forall>res. ''role'' \<in> set (columns df) \<and> ''champion'' \<in> set (columns df) \<and>
        analyze_player_tendencies df (Some []) = Inr res \<longrightarrow>
      (\<forall>rl \<in> role ` set (rows df).
          (\<exists>c. 2 \<le> count_list (role_champions df rl) c) \<longrightarrow> rl \<in> fst ` set res))"
proof -
  have f: "filtered_rows df (Some []) = rows df" "filtered_rows df None = rows df"
    by (simp_all add: filtered_rows_def)
  have c1: "analyze_player_tendencies df (Some []) = analyze_player_tendencies df None"
    by (simp add: analyze_player_tendencies_eq f)
  have c2: "analyze_player_tendencies df (Some []) =
     analyze_player_tendencies df (Some (groupby_keys (map role (rows df))))"
    by (simp add: analyze_player_tendencies_eq f filtered_rows_all)
  have c4: "rl \<in> fst ` set res"
    if cols: "''role'' \<in> set (columns df)" "''champion'' \<in> set (columns df)"
      and r: "analyze_player_tendencies df (Some []) = Inr res"
      and rl: "rl \<in> role ` set (rows df)"
      and c: "2 \<le> count_list (role_champions df rl) c"
    for res rl c
  proof -
    have loop: "role_loop df (rows df) (groupby_keys (map role (rows df))) = Inr res"
      using r cols by (simp add: analyze_player_tendencies_eq f)
    have key: "rl \<in> set (groupby_keys (map role (rows df)))"
      using rl by (simp add: groupby_keys_def)
    have "\<not> (\<forall>c. count_list (role_champions df rl) c < 2)"
      using c by (auto simp: not_less)
    then have "filter (\<lambda>p. snd p \<ge> 2)
        (value_counts (map champion (filter (\<lambda>r. role r = rl) (rows df)))) \<noteq> []"
      unfolding filtered_empty_iff role_champions_def .
    from role_loop_complete [OF loop key this] show ?thesis .
  qed
  show ?thesis
    using c1 c2 analyze_player_tendencies_total c4 by blast
qed

theorem empty_roles_filter_witness:
  "''role'' \<in> set (columns df_top) \<and> ''champion'' \<in> set (columns df_top) \<and>
   ''win'' \<in> set (columns df_top) \<and>
   analyze_player_tendencies df_top (Some []) = Inr [(''TOP'', top_tendency)] \<and>
   analyze_player_tendencies df_top None = Inr [(''TOP'', top_tendency)] \<and>
   ''TOP'' \<in> role ` set (rows df_top) \<and>
   2 \<le> count_list (role_champions df_top ''TOP'') ''A'' \<and>
   ''TOP'' \<in> fst ` set [(''TOP'', top_tendency)]"
proof -
  have cols: "''role'' \<in> set (columns df_top)" "''champion'' \<in> set (columns df_top)"
    "''win'' \<in> set (columns df_top)"
    by (simp_all add: df_top_def all_columns_def)
  have r: "analyze_player_tendencies df_top None = Inr [(''TOP'', top_tendency)]"
    by code_simp
  have e: "analyze_player_tendencies df_top (Some []) = Inr [(''TOP'', top_tendency)]"
    using r empty_roles_filter [of df_top] by simp
  have t: "''TOP'' \<in> role ` set (rows df_top)"
    by (simp add: df_top_def player_row_def)
  have c: "2 \<le> count_list (role_champions df_top ''TOP'') ''A''"
    by (simp add: role_champions_def df_top_def player_row_def)
  from empty_roles_filter [of df_top] cols e t c
  have "''TOP'' \<in> fst ` set [(''TOP'', top_tendency)]"
    by blast
  then show ?thesis using cols r e t c by blast
qed

section \<open>Tables without the role or champion column\<close>

text \<open>
  A table that lacks the role column but has the champion column: the Player Tendency
  Analyzer returns the empty mapping, but the Composition Analyzer, which reads only
  match\_id, team\_id and champion, returns one composition.
\<close>

theorem empty_results_counterexample:
  "''role'' \<notin> set (columns df_no_role) \<and>
   analyze_player_tendencies df_no_role None = Inr [] \<and>
   analyze_compositions df_no_role = Inr [garen_entry] \<and>
   analyze_compositions df_no_role \<noteq> Inr []"
proof -
  have c: "''role'' \<notin> set (columns df_no_role)"
    by (simp add: df_no_role_def)
  have p: "analyze_player_tendencies df_no_role None = Inr []"
    using c by (simp add: analyze_player_tendencies_def)
  have a: "analyze_compositions df_no_role = Inr [garen_entry]"
    by code_simp
  show ?thesis using c p a by simp
qed

lemma generate_total:
  assumes "set required_fields \<subseteq> set (columns df)"
  shows "\<exists>ins. generate_how_to_win_insights df = Inr ins"
proof -
  note req = required_fieldsD [OF assms]
  let ?d = "mean (map first_dragon (rows df))"
  let ?e = "Some (rate_or_zero (early_game df))" and ?l = "Some (rate_or_zero (late_game df))"
  obtain h where h: "high_insight df ?d ?e ?l = Inr h"
    using high_insight_present [OF req(4)] by blast
  obtain m where m: "medium_insight df ?e ?l = Inr m"
    using medium_insight_present [OF req(2)] by blast
  show ?thesis
    by (simp add: generate_unfold [OF how_to_win_rates_value [OF assms]] h m)
qed

text \<open>
  C8 (amended). When the role column or the champion column is absent, the Player Tendency
  Analyzer returns the empty mapping; when the champion column is absent, the Composition
  Analyzer returns the empty composition list; neither raises. On any table that has
  first\_dragon, first\_tower, game\_duration and win, the Team Tendency Analyzer and the
  synthesizer return a result, whether or not role and champion are there.
\<close>

theorem missing_optional_columns:
  "(''role'' \<notin> set (columns df) \<or> ''champion'' \<notin> set (columns df) \<longrightarrow>
      analyze_player_tendencies df roles = Inr []) \<and>
   (''champion'' \<notin> set (columns df) \<longrightarrow> analyze_compositions df = Inr []) \<and>
   (set required_fields \<subseteq> set (columns df) \<longrightarrow>
      (\<exists>t. analyze_team_tendencies df = Inr t) \<and>
      (\<exists>ins. generate_how_to_win_insights df = Inr ins))"
proof -
  have "''role'' \<notin> set (columns df) \<or> ''champion'' \<notin> set (columns df) \<longrightarrow>
      analyze_player_tendencies df roles = Inr []"
    by (simp add: analyze_player_tendencies_def)
  moreover have "''champion'' \<notin> set (columns df) \<longrightarrow> analyze_compositions df = Inr []"
    by (simp add: analyze_compositions_def)
  moreover have "\<exists>t. analyze_team_tendencies df = Inr t"
    if "set required_fields \<subseteq> set (columns df)"
    using analyze_team_tendencies_present [OF that] by simp
  ultimately show ?thesis
    using generate_total by blast
qed

theorem missing_optional_columns_witness:
  "''champion'' \<notin> set (columns df_no_champion) \<and>
   set required_fields \<subseteq> set (columns df_no_champion) \<and>
   analyze_player_tendencies df_no_champion None = Inr [] \<and>
   analyze_compositions df_no_champion = Inr [] \<and>
   (\<exists>t. analyze_team_tendencies df_no_champion = Inr t) \<and>
   (\<exists>ins. generate_how_to_win_insights df_no_champion = Inr ins)"
proof -
  have c: "''champion'' \<notin> set (columns df_no_champion)"
    by (simp add: df_no_champion_def)
  have r: "set required_fields \<subseteq> set (columns df_no_champion)"
    by (simp add: df_no_champion_def required_fields_def)
  show ?thesis
    using c r missing_optional_columns [of df_no_champion None] by blast
qed

section \<open>Classification of a composition\<close>

lemma champion_tags_distinct: "distinct (map fst champion_tags)"
  by code_simp

lemma tag_count_Cons:
  "tag_count (champ # cmp) a =
     (if map_of champion_tags champ = Some a then 1 else 0) + tag_count cmp a"
  by (simp add: tag_count_def)

lemma count_tags_eq:
  "count_tags counts cmp = map (\<lambda>(k, v). (k, v + tag_count cmp k)) counts"
proof (induction cmp arbitrary: counts)
  case Nil
  then show ?case by (simp add: tag_count_def)
next
  case (Cons champ cmp)
  show ?case
  proof (cases "map_of champion_tags champ")
    case None
    then show ?thesis by (simp add: Cons.IH tag_count_Cons)
  next
    case (Some tag)
    then show ?thesis
      by (auto simp add: Cons.IH tag_count_Cons increment_def)
  qed
qed

lemma classify_style:
  "classify_team_composition cmp =
     map_of archetypes (style_of (tag_count cmp ''skirmish'') (tag_count cmp ''protect'')
                          (tag_count cmp ''engage'') (tag_count cmp ''scaling''))"
  by (simp add: classify_team_composition_def count_tags_eq idxmax_def series_max_def
      style_of_def Let_def)


lemma style_of_standard:
  assumes "max (max s p) (max e c) < 2"
  shows "style_of s p e c = ''standard''"
  using assms by (simp add: style_of_def)

lemma style_of_primary:
  fixes n :: "string \<Rightarrow> nat"
  defines "s \<equiv> n ''skirmish''" and "p \<equiv> n ''protect''" and "e \<equiv> n ''engage''"
    and "c \<equiv> n ''scaling''"
  assumes "2 \<le> max (max s p) (max e c)"
  shows "style_of s p e c \<in> set archetype_order \<and>
    n (style_of s p e c) = max (max s p) (max e c) \<and>
    (\<forall>b \<in> set (takeWhile (\<lambda>b. b \<noteq> style_of s p e c) archetype_order).
        n b < max (max s p) (max e c))"
proof -
  have "(p \<le> s \<and> e \<le> s \<and> c \<le> s \<and> 2 \<le> s) \<or> (s < p \<and> e \<le> p \<and> c \<le> p \<and> 2 \<le> p) \<or>
        (s < e \<and> p < e \<and> c \<le> e \<and> 2 \<le> e) \<or> (s < c \<and> p < c \<and> e < c \<and> 2 \<le> c)"
    using assms(5) by arith
  then consider (sk) "p \<le> s" "e \<le> s" "c \<le> s" "2 \<le> s"
    | (pr) "s < p" "e \<le> p" "c \<le> p" "2 \<le> p"
    | (en) "s < e" "p < e" "c \<le> e" "2 \<le> e"
    | (sc) "s < c" "p < c" "e < c" "2 \<le> c"
    by blast
  then show ?thesis
  proof cases
    case sk
    then have "style_of s p e c = ''skirmish''" by (simp add: style_of_def)
    then show ?thesis using sk by (simp add: archetype_order_def max_def s_def [symmetric])
  next
    case pr
    then have "style_of s p e c = ''protect''" by (simp add: style_of_def)
    then show ?thesis using pr
      by (simp add: archetype_order_def max_def s_def [symmetric] p_def [symmetric])
  next
    case en
    then have "style_of s p e c = ''engage''" by (simp add: style_of_def)
    then show ?thesis using en
      by (simp add: archetype_order_def max_def s_def [symmetric] p_def [symmetric]
          e_def [symmetric])
  next
    case sc
    then have "style_of s p e c = ''scaling''" by (simp add: style_of_def)
    then show ?thesis using sc
      by (simp add: archetype_order_def max_def s_def [symmetric] p_def [symmetric]
          e_def [symmetric] c_def [symmetric])
  qed
qed

lemma style_of_known: "\<exists>a. map_of archetypes (style_of s p e c) = Some a"
  by (simp add: style_of_def archetypes_def)

lemma tag_count_tagged:
  "tag_count (filter (\<lambda>c. map_of champion_tags c \<noteq> None) cmp) a = tag_count cmp a"
  by (auto simp: tag_count_def intro: arg_cong [where f = length] filter_cong)

lemma tag_count_untagged:
  "map_of champion_tags champ = None \<Longrightarrow> tag_count (champ # cmp) a = tag_count cmp a"
  by (simp add: tag_count_Cons)


text \<open>
  C5. The classification of a composition counts, per archetype, the champions tagged with
  it; untagged champions count for nothing (removing them changes nothing). When the
  highest of the four counts is below 2 the composition is STANDARD. Otherwise the chosen
  archetype holds the highest count, and every archetype before it in the priority order
  skirmish, protect, engage, scaling holds a strictly smaller count: ties go to the earlier
  archetype. The result is the label triple of the chosen style.
\<close>

theorem composition_classification:
  "\<exists>style a. classify_team_composition cmp = Some a \<and> map_of archetypes style = Some a \<and>
     classify_team_composition (filter (\<lambda>c. map_of champion_tags c \<noteq> None) cmp) = Some a \<and>
     (highest_count cmp < 2 \<longrightarrow> style = ''standard'' \<and> archetype.category a = ''STANDARD'') \<and>
     (2 \<le> highest_count cmp \<longrightarrow>
        style \<in> set archetype_order \<and> tag_count cmp style = highest_count cmp \<and>
        (\<forall>b \<in> set (takeWhile (\<lambda>b. b \<noteq> style) archetype_order).
            tag_count cmp b < highest_count cmp))"
proof -
  let ?s = "tag_count cmp ''skirmish''" and ?p = "tag_count cmp ''protect''"
  let ?e = "tag_count cmp ''engage''" and ?c = "tag_count cmp ''scaling''"
  let ?style = "style_of ?s ?p ?e ?c"
  obtain a where a: "map_of archetypes ?style = Some a"
    using style_of_known by blast
  have c1: "classify_team_composition cmp = Some a"
    by (simp add: classify_style a)
  have c2: "classify_team_composition (filter (\<lambda>c. map_of champion_tags c \<noteq> None) cmp) = Some a"
    unfolding classify_style tag_count_tagged by (rule a)
  have c3: "?style = ''standard'' \<and> archetype.category a = ''STANDARD''"
    if "highest_count cmp < 2"
  proof -
    have st: "?style = ''standard''"
      using that by (simp add: highest_count_def style_of_standard)
    then show ?thesis using a by (auto simp: archetypes_def)
  qed
  have c4: "?style \<in> set archetype_order \<and> tag_count cmp ?style = highest_count cmp \<and>
        (\<forall>b \<in> set (takeWhile (\<lambda>b. b \<noteq> ?style) archetype_order).
            tag_count cmp b < highest_count cmp)"
    if "2 \<le> highest_count cmp"
    using style_of_primary [of "tag_count cmp"] that unfolding highest_count_def by blast
  show ?thesis
    using a c1 c2 c3 c4 by blast
qed

theorem composition_classification_witness:
  "2 \<le> highest_count skirmish_comp \<and>
   tag_count skirmish_comp ''skirmish'' = 2 \<and> tag_count skirmish_comp ''protect'' = 2 \<and>
   (\<exists>a. classify_team_composition skirmish_comp = Some a \<and>
        archetype.category a = ''EARLY SKIRMISH'')"
proof -
  have t: "tag_count skirmish_comp ''skirmish'' = 2" "tag_count skirmish_comp ''protect'' = 2"
    "tag_count skirmish_comp ''engage'' = 0" "tag_count skirmish_comp ''scaling'' = 1"
    by code_simp+
  then have h: "highest_count skirmish_comp = 2"
    by (simp add: highest_count_def)
  from composition_classification [of skirmish_comp] h
  obtain style a where a: "classify_team_composition skirmish_comp = Some a"
    and m: "map_of archetypes style = Some a"
    and o: "style \<in> set archetype_order" and c: "tag_count skirmish_comp style = 2"
    and b: "\<forall>b \<in> set (takeWhile (\<lambda>b. b \<noteq> style) archetype_order).
        tag_count skirmish_comp b < 2"
    by auto
  have "style = ''skirmish''"
  proof (rule ccontr)
    assume n: "style \<noteq> ''skirmish''"
    then have "''skirmish'' \<in> set (takeWhile (\<lambda>b. b \<noteq> style) archetype_order)"
      by (simp add: archetype_order_def)
    with b t(1) show False by auto
  qed
  then have "archetype.category a = ''EARLY SKIRMISH''"
    using m by (auto simp: archetypes_def)
  then show ?thesis using a t h by simp
qed

section \<open>Ranking of compositions\<close>

lemma first_seen_snoc:
  "first_seen (xs @ [x]) = (if x \<in> set xs then first_seen xs else first_seen xs @ [x])"
  by (simp add: first_seen_def)

lemma value_counts_nonincreasing: "sorted_wrt (\<lambda>a b. snd b \<le> snd a) (value_counts xs)"
proof -
  have "sorted (map (\<lambda>p. - int (snd p)) (value_counts xs))"
    by (simp add: value_counts_def)
  then show ?thesis
    by (simp add: sorted_map sorted_wrt_map)
qed

lemma value_counts_distinct: "distinct (map fst (value_counts xs))"
proof -
  have "distinct (map (\<lambda>x. (x, count_list xs x)) (first_seen xs))"
    by (simp add: distinct_map inj_on_def)
  then have "distinct (value_counts xs)"
    by (simp add: value_counts_def)
  moreover have "inj_on fst (set (value_counts xs))"
    by (auto simp: set_value_counts inj_on_def)
  ultimately show ?thesis
    by (simp add: distinct_map)
qed

lemma filter_pairs:
  "filter (\<lambda>p. - int (snd p) = - int k) (map (\<lambda>x. (x, f x)) ys) =
     map (\<lambda>x. (x, k)) (filter (\<lambda>x. f x = k) ys)"
  by (induction ys) auto

lemma value_counts_stable:
  "filter (\<lambda>p. snd p = k) (value_counts xs) =
     map (\<lambda>x. (x, k)) (filter (\<lambda>x. count_list xs x = k) (first_seen xs))"
proof -
  have "filter (\<lambda>p. snd p = k) (value_counts xs) =
      filter (\<lambda>p. - int (snd p) = - int k) (value_counts xs)"
    by simp
  also have "\<dots> = filter (\<lambda>p. - int (snd p) = - int k)
      (map (\<lambda>x. (x, count_list xs x)) (first_seen xs))"
    unfolding value_counts_def by (rule sort_key_stable)
  also have "\<dots> = map (\<lambda>x. (x, k)) (filter (\<lambda>x. count_list xs x = k) (first_seen xs))"
    by (rule filter_pairs)
  finally show ?thesis .
qed


lemma classify_total: "\<exists>a. classify_team_composition cmp = Some a"
  using style_of_known by (simp add: classify_style)

lemma report_rows_total: "\<exists>res. report_rows cs = Inr res"
proof (induction cs)
  case Nil
  then show ?case by simp
next
  case (Cons c cs)
  obtain cmp n where c: "c = (cmp, n)" by (cases c)
  obtain a where a: "classify_team_composition cmp = Some a"
    using classify_total by blast
  from Cons obtain results where "report_rows cs = Inr results" by blast
  then show ?case by (simp add: c a)
qed

lemma report_rows_entries:
  "report_rows cs = Inr res \<Longrightarrow> map (\<lambda>e. (composition e, count e)) res = cs"
proof (induction cs arbitrary: res)
  case Nil
  then show ?case by simp
next
  case (Cons c cs)
  obtain cmp n where c: "c = (cmp, n)" by (cases c)
  obtain a where a: "classify_team_composition cmp = Some a"
    using classify_total by blast
  obtain results where r: "report_rows cs = Inr results"
    using report_rows_total by blast
  from Cons.prems have "res = \<lparr> composition = cmp, count = n,
      category = archetype.category a, win_condition = archetype.win_condition a,
      break_point = archetype.break_point a \<rparr> # results"
    by (simp add: c a r)
  then show ?case using Cons.IH [OF r] by (simp add: c)
qed

lemma team_compositions_sorted: "cmp \<in> set (team_compositions rs) \<Longrightarrow> sorted cmp"
  by (auto simp: team_compositions_def)

lemma analyze_compositions_entries:
  assumes "analyze_compositions df = Inr res"
  shows "res = [] \<or>
    map (\<lambda>e. (composition e, count e)) res = take 5 (value_counts (team_compositions (rows df)))"
  using assms report_rows_entries
  by (auto simp: analyze_compositions_def Let_def split: if_splits)

lemma analyze_compositions_total:
  assumes "''champion'' \<in> set (columns df)" "''match_id'' \<in> set (columns df)"
    "''team_id'' \<in> set (columns df)"
  shows "\<exists>res. analyze_compositions df = Inr res"
  using assms report_rows_total by (simp add: analyze_compositions_def Let_def)

lemma ranking:
  assumes "map (\<lambda>e. (composition e, count e)) res = take 5 (value_counts xs)"
  shows "length res \<le> 5"
    and "sorted_wrt (\<lambda>a b. count b \<le> count a) res"
    and "\<forall>e\<in>set res. composition e \<in> set xs \<and> count e = count_list xs (composition e)"
    and "distinct (map composition res)"
    and "prefix (map composition (filter (\<lambda>e. count e = k) res))
           (filter (\<lambda>x. count_list xs x = k) (first_seen xs))"
proof -
  let ?f = "\<lambda>e. (composition e, count e)"
  let ?V = "value_counts xs"
  have "length (map ?f res) \<le> 5"
    unfolding assms by simp
  then show "length res \<le> 5" by simp
  have "sorted_wrt (\<lambda>a b. snd b \<le> snd a) (map ?f res)"
    unfolding assms using value_counts_nonincreasing by (rule sorted_wrt_take)
  then show "sorted_wrt (\<lambda>a b. count b \<le> count a) res"
    by (simp add: sorted_wrt_map)
  show "\<forall>e\<in>set res. composition e \<in> set xs \<and> count e = count_list xs (composition e)"
  proof
    fix e
    assume "e \<in> set res"
    then have "?f e \<in> set (map ?f res)" by simp
    then have "?f e \<in> set ?V"
      unfolding assms by (rule in_set_takeD)
    then show "composition e \<in> set xs \<and> count e = count_list xs (composition e)"
      by (auto simp: set_value_counts)
  qed
  have m: "map composition res = map fst (map ?f res)"
    by simp
  have "distinct (map fst (take 5 ?V))"
    using value_counts_distinct [of xs] by (simp add: take_map [symmetric])
  then show "distinct (map composition res)"
    unfolding m assms .
  have "map composition (filter (\<lambda>e. count e = k) res) =
      map fst (filter (\<lambda>p. snd p = k) (map ?f res))"
    by (simp add: filter_map comp_def)
  moreover have "prefix (map fst (filter (\<lambda>p. snd p = k) (take 5 ?V)))
      (map fst (filter (\<lambda>p. snd p = k) ?V))"
    by (intro map_mono_prefix filter_mono_prefix take_is_prefix)
  moreover have "map fst (filter (\<lambda>p. snd p = k) ?V) =
      filter (\<lambda>x. count_list xs x = k) (first_seen xs)"
    by (simp add: value_counts_stable comp_def)
  ultimately show "prefix (map composition (filter (\<lambda>e. count e = k) res))
           (filter (\<lambda>x. count_list xs x = k) (first_seen xs))"
    by (simp add: assms)
qed

text \<open>
  C6. The Composition Analyzer returns a list whenever the champion, match\_id and team\_id
  columns exist. Every list it returns has at most 5 entries, in order of non-increasing
  occurrence count; each entry's composition is sorted lexicographically and its count is
  the number of (match, team) groups with that composition; no composition appears twice;
  and for every count k the entries with count k appear in the order in which their
  compositions are first encountered in the sequence of groups (the top-5 cut keeps an
  initial part of that order).
\<close>

theorem common_compositions_ranking:
  "(''champion'' \<in> set (columns df) \<and> ''match_id'' \<in> set (columns df) \<and>
    ''team_id'' \<in> set (columns df) \<longrightarrow> (\<exists>res. analyze_compositions df = Inr res)) \<and>
   (\<forall>res. analyze_compositions df = Inr res \<longrightarrow>
      length res \<le> 5 \<and>
      sorted_wrt (\<lambda>a b. count b \<le> count a) res \<and>
      (\<forall>e\<in>set res. sorted (composition e) \<and>
          count e = count_list (team_compositions (rows df)) (composition e)) \<and>
      distinct (map composition res) \<and>
      (\<forall>k. prefix (map composition (filter (\<lambda>e. count e = k) res))
             (filter (\<lambda>x. count_list (team_compositions (rows df)) x = k)
                (first_seen (team_compositions (rows df))))))"
proof -
  let ?xs = "team_compositions (rows df)"
  have props: "length res \<le> 5 \<and>
      sorted_wrt (\<lambda>a b. count b \<le> count a) res \<and>
      (\<forall>e\<in>set res. sorted (composition e) \<and> count e = count_list ?xs (composition e)) \<and>
      distinct (map composition res) \<and>
      (\<forall>k. prefix (map composition (filter (\<lambda>e. count e = k) res))
             (filter (\<lambda>x. count_list ?xs x = k) (first_seen ?xs)))"
    if r: "analyze_compositions df = Inr res" for res
  proof (cases "res = []")
    case True
    then show ?thesis by simp
  next
    case False
    then have m: "map (\<lambda>e. (composition e, count e)) res = take 5 (value_counts ?xs)"
      using analyze_compositions_entries [OF r] by simp
    note k = ranking [OF m]
    have "\<forall>e\<in>set res. sorted (composition e) \<and> count e = count_list ?xs (composition e)"
      using k(3) team_compositions_sorted by blast
    then show ?thesis
      using k(1,2,4,5) by blast
  qed
  show ?thesis
    using analyze_compositions_total props by blast
qed

theorem common_compositions_ranking_witness:
  "''champion'' \<in> set (columns df_comps) \<and> ''match_id'' \<in> set (columns df_comps) \<and>
   ''team_id'' \<in> set (columns df_comps) \<and>
   analyze_compositions df_comps = Inr comps_report \<and>
   map composition comps_report = [[''Ahri''], [''Darius'', ''Garen''], [''Zed'']] \<and>
   map count comps_report = [2, 1, 1] \<and>
   length comps_report \<le> 5 \<and>
   sorted_wrt (\<lambda>a b. count b \<le> count a) comps_report \<and>
   prefix (map composition (filter (\<lambda>e. count e = 1) comps_report))
     (filter (\<lambda>x. count_list (team_compositions (rows df_comps)) x = 1)
        (first_seen (team_compositions (rows df_comps))))"
proof -
  have c: "''champion'' \<in> set (columns df_comps)" "''match_id'' \<in> set (columns df_comps)"
    "''team_id'' \<in> set (columns df_comps)"
    by (simp_all add: df_comps_def all_columns_def)
  have r: "analyze_compositions df_comps = Inr comps_report"
    by code_simp
  have v: "map composition comps_report = [[''Ahri''], [''Darius'', ''Garen''], [''Zed'']]"
    "map count comps_report = [2, 1, 1]"
    by (simp_all add: comps_report_def standard_entry_def)
  from common_compositions_ranking [of df_comps] r
  have "length comps_report \<le> 5" "sorted_wrt (\<lambda>a b. count b \<le> count a) comps_report"
    "prefix (map composition (filter (\<lambda>e. count e = 1) comps_report))
     (filter (\<lambda>x. count_list (team_compositions (rows df_comps)) x = 1)
        (first_seen (team_compositions (rows df_comps))))"
    by blast+
  then show ?thesis using c r v by blast
qed

end
